theory Spec2Isabelle
  imports Main "HOL-Library.Word" "HOL-Library.Monad_Syntax"
begin

unbundle bit_operations_syntax

section \<open>The IPMI message layer of kuiwang02/bmc\<close>

text \<open>
  A shallow embedding of \<^verbatim>\<open>pkg/ipmi\<close>'s message layer (the \<^verbatim>\<open>Message\<close> struct with
  its decoder and serialiser, the \<^verbatim>\<open>checksum\<close> function, the \<^verbatim>\<open>Operation\<close> table) and
  of \<^verbatim>\<open>algorithmCipher\<close> in \<^verbatim>\<open>confidentiality.go\<close>.

  Go's \<^verbatim>\<open>uint8\<close> is \<open>8 word\<close>, \<^verbatim>\<open>uint32\<close> is \<open>32 word\<close>, \<^verbatim>\<open>int\<close> (slice
  indices and lengths) is \<open>int\<close>, a \<^verbatim>\<open>[]byte\<close> is a list of bytes. A method with a
  pointer receiver takes the struct and returns the updated one. A run-time panic
  (index or slice bounds out of range) is a result of its own, next to the returned
  error.
\<close>

type_synonym byte = "8 word"

subsection \<open>Slices\<close>

text \<open>
  \<^verbatim>\<open>xs[i]\<close> panics unless \<^verbatim>\<open>0 <= i < len(xs)\<close>; \<^verbatim>\<open>xs[lo:hi]\<close> panics unless
  \<^verbatim>\<open>0 <= lo <= hi <= cap(xs)\<close>. The capacity of a slice is taken to be its length
  (no slice expression of the source has an upper bound above the length).
  \<open>None\<close> is the panic.
\<close>

definition at :: "'a list \<Rightarrow> int \<Rightarrow> 'a option" where
  "at xs i = (if 0 \<le> i \<and> i < int (length xs) then Some (xs ! nat i) else None)"

definition slice :: "'a list \<Rightarrow> int \<Rightarrow> int \<Rightarrow> 'a list option" where
  "slice xs lo hi =
     (if 0 \<le> lo \<and> lo \<le> hi \<and> hi \<le> int (length xs)
      then Some (take (nat (hi - lo)) (drop (nat lo) xs)) else None)"

definition set_at :: "'a list \<Rightarrow> int \<Rightarrow> 'a \<Rightarrow> 'a list option" where
  "set_at xs i v = (if 0 \<le> i \<and> i < int (length xs) then Some (xs[nat i := v]) else None)"

subsection \<open>The checksum\<close>

text \<open>
  \<^verbatim>\<open>
  func checksum(data []byte) uint8 {
      c := uint8(0)
      for _, b := range data {
          c += uint8(b) // overflow is safe
      }
      return -c
  }
  \<close>
\<close>

definition checksum :: "byte list \<Rightarrow> byte" where
  "checksum data = - foldl (\<lambda>c b. c + b) 0 data"

subsection \<open>Network functions and operations\<close>

text \<open>
  Modelled from the spec: the declaration of \<^verbatim>\<open>NetworkFunction\<close> and of its constants is
  not among the sources. The spec has a network function as a 6-bit code, held here in a
  byte as the conversions of the source have it, with the Group and OEM request/response
  pairs as the special codes. The numbers are those of the IPMI specification that the
  spec makes binding for the wire (Chassis 00h/01h, Sensor 04h/05h, App 06h/07h,
  Storage 0Ah/0Bh, Group extension 2Ch/2Dh, OEM/Group 2Eh/2Fh).
\<close>

type_synonym NetworkFunction = byte

definition NetworkFunctionChassisReq :: NetworkFunction where "NetworkFunctionChassisReq = 0x00"
definition NetworkFunctionChassisRsp :: NetworkFunction where "NetworkFunctionChassisRsp = 0x01"
definition NetworkFunctionSensorReq :: NetworkFunction where "NetworkFunctionSensorReq = 0x04"
definition NetworkFunctionSensorRsp :: NetworkFunction where "NetworkFunctionSensorRsp = 0x05"
definition NetworkFunctionAppReq :: NetworkFunction where "NetworkFunctionAppReq = 0x06"
definition NetworkFunctionAppRsp :: NetworkFunction where "NetworkFunctionAppRsp = 0x07"
definition NetworkFunctionStorageReq :: NetworkFunction where "NetworkFunctionStorageReq = 0x0a"
definition NetworkFunctionStorageRsp :: NetworkFunction where "NetworkFunctionStorageRsp = 0x0b"
definition NetworkFunctionGroupReq :: NetworkFunction where "NetworkFunctionGroupReq = 0x2c"
definition NetworkFunctionGroupRsp :: NetworkFunction where "NetworkFunctionGroupRsp = 0x2d"
definition NetworkFunctionOEMReq :: NetworkFunction where "NetworkFunctionOEMReq = 0x2e"
definition NetworkFunctionOEMRsp :: NetworkFunction where "NetworkFunctionOEMRsp = 0x2f"

text \<open>
  Modelled from the spec: the method \<^verbatim>\<open>IsRequest\<close> is not among the sources either; the
  spec has it true iff the function code is even, that is, iff its lowest bit is clear.
\<close>

definition IsRequest :: "NetworkFunction \<Rightarrow> bool" where
  "IsRequest n = (n AND 1 = 0)"

text \<open>
  Modelled from the spec: \<^verbatim>\<open>CompletionCodeNormal\<close> is declared outside the sources; the
  spec calls it the normal (zero) sentinel, and \<^verbatim>\<open>decodeRequest\<close> writes the literal 0.
\<close>

type_synonym CompletionCode = byte

definition CompletionCodeNormal :: CompletionCode where
  "CompletionCodeNormal = 0"

text \<open>
  \<^verbatim>\<open>Operation\<close> is the struct of \<^verbatim>\<open>Function\<close>, \<^verbatim>\<open>Body\<close>, \<^verbatim>\<open>Enterprise\<close> and
  \<^verbatim>\<open>Command\<close>; \<^verbatim>\<open>BodyCode\<close> and \<^verbatim>\<open>CommandNumber\<close> are bytes (the source converts them
  with \<^verbatim>\<open>uint8(...)\<close>), \<^verbatim>\<open>iana.Enterprise\<close> is a \<^verbatim>\<open>uint32\<close>.
\<close>

record Operation =
  Function :: NetworkFunction
  Body :: byte
  Enterprise :: "32 word"
  Command :: byte

text \<open>
  The layer types are registered with gopacket outside the sources; only their identity
  matters here. \<open>LayerTypePayload\<close> is gopacket's opaque payload.
\<close>

datatype LayerType =
    LayerTypePayload
  | LayerTypeGetDeviceIDRsp
  | LayerTypeGetChassisStatusRsp
  | LayerTypeGetSystemGUIDRsp
  | LayerTypeGetChannelAuthenticationCapabilitiesRsp
  | LayerTypeGetSDRRepositoryInfoRsp
  | LayerTypeGetSDRRsp
  | LayerTypeGetSensorReadingRsp
  | LayerTypeGetSessionInfoRsp

definition OperationGetChassisStatusRsp :: Operation where
  "OperationGetChassisStatusRsp =
     \<lparr>Function = NetworkFunctionChassisRsp, Body = 0, Enterprise = 0, Command = 0x01\<rparr>"

definition OperationGetDeviceIDRsp :: Operation where
  "OperationGetDeviceIDRsp =
     \<lparr>Function = NetworkFunctionAppRsp, Body = 0, Enterprise = 0, Command = 0x01\<rparr>"

definition OperationGetSystemGUIDRsp :: Operation where
  "OperationGetSystemGUIDRsp =
     \<lparr>Function = NetworkFunctionAppRsp, Body = 0, Enterprise = 0, Command = 0x37\<rparr>"

definition OperationGetChannelAuthenticationCapabilitiesRsp :: Operation where
  "OperationGetChannelAuthenticationCapabilitiesRsp =
     \<lparr>Function = NetworkFunctionAppRsp, Body = 0, Enterprise = 0, Command = 0x38\<rparr>"

definition OperationGetSDRRepositoryInfoRsp :: Operation where
  "OperationGetSDRRepositoryInfoRsp =
     \<lparr>Function = NetworkFunctionStorageRsp, Body = 0, Enterprise = 0, Command = 0x20\<rparr>"

definition OperationGetSDRRsp :: Operation where
  "OperationGetSDRRsp =
     \<lparr>Function = NetworkFunctionStorageRsp, Body = 0, Enterprise = 0, Command = 0x23\<rparr>"

definition OperationGetSensorReadingRsp :: Operation where
  "OperationGetSensorReadingRsp =
     \<lparr>Function = NetworkFunctionSensorRsp, Body = 0, Enterprise = 0, Command = 0x2d\<rparr>"

definition OperationGetSessionInfoRsp :: Operation where
  "OperationGetSessionInfoRsp =
     \<lparr>Function = NetworkFunctionAppRsp, Body = 0, Enterprise = 0, Command = 0x3d\<rparr>"

text \<open>
  The map literal \<^verbatim>\<open>operationLayerTypes\<close>, in the order of the source. Its keys are
  pairwise different, so the first entry found is the entry of the Go map.
\<close>

definition operationLayerTypes :: "(Operation \<times> LayerType) list" where
  "operationLayerTypes =
     [(OperationGetDeviceIDRsp, LayerTypeGetDeviceIDRsp),
      (OperationGetChassisStatusRsp, LayerTypeGetChassisStatusRsp),
      (OperationGetSystemGUIDRsp, LayerTypeGetSystemGUIDRsp),
      (OperationGetChannelAuthenticationCapabilitiesRsp,
         LayerTypeGetChannelAuthenticationCapabilitiesRsp),
      (OperationGetSDRRepositoryInfoRsp, LayerTypeGetSDRRepositoryInfoRsp),
      (OperationGetSDRRsp, LayerTypeGetSDRRsp),
      (OperationGetSensorReadingRsp, LayerTypeGetSensorReadingRsp),
      (OperationGetSessionInfoRsp, LayerTypeGetSessionInfoRsp)]"

text \<open>
  \<^verbatim>\<open>
  func (o Operation) NextLayerType() gopacket.LayerType {
      if layer, ok := operationLayerTypes[o]; ok {
          return layer
      }
      return gopacket.LayerTypePayload
  }
  \<close>
\<close>

definition Operation_NextLayerType :: "Operation \<Rightarrow> LayerType" where
  "Operation_NextLayerType o' =
     (case map_of operationLayerTypes o' of
        Some layer \<Rightarrow> layer
      | None \<Rightarrow> LayerTypePayload)"

subsection \<open>The message\<close>

text \<open>
  \<^verbatim>\<open>Message\<close> embeds \<^verbatim>\<open>layers.BaseLayer\<close> (the fields \<^verbatim>\<open>Contents\<close> and \<^verbatim>\<open>Payload\<close>),
  \<^verbatim>\<open>Operation\<close> and \<^verbatim>\<open>CompletionCode\<close>. \<^verbatim>\<open>Address\<close> and \<^verbatim>\<open>LUN\<close> are bytes.
\<close>

record Message = Operation +
  Contents :: "byte list"
  Payload :: "byte list"
  RemoteAddress :: byte
  RemoteLUN :: byte
  Checksum1 :: byte
  LocalAddress :: byte
  LocalLUN :: byte
  Sequence :: byte
  CompletionCode :: CompletionCode
  Checksum2 :: byte

text \<open>
  \<^verbatim>\<open>
  func (m *Message) NextLayerType() gopacket.LayerType {
      if m.CompletionCode != CompletionCodeNormal {
          return gopacket.LayerTypePayload
      }
      return m.Operation.NextLayerType()
  }
  \<close>
\<close>

definition Message_NextLayerType :: "Message \<Rightarrow> LayerType" where
  "Message_NextLayerType m =
     (if CompletionCode m \<noteq> CompletionCodeNormal then LayerTypePayload
      else Operation_NextLayerType (Operation.truncate m))"

subsection \<open>Decoding\<close>

text \<open>
  The errors the decoder builds with \<^verbatim>\<open>fmt.Errorf\<close>, one constructor for each format
  string, holding the values the string prints: the length got, and \<open>got\<close> then
  \<open>want\<close> of a checksum.
\<close>

datatype error =
    TooShort int
  | InvalidChecksum1 byte byte
  | InvalidChecksum2 byte byte
  | BodyCodeTooShort
  | OEMENTooShort

text \<open>
  How a call ends: it returns \<^verbatim>\<open>nil\<close>, it returns an error, or it panics.
\<close>

datatype outcome = OK | Failed error | Panic

text \<open>
  \<^verbatim>\<open>gopacket.DecodeFeedback\<close> is the flag that \<^verbatim>\<open>SetTruncated()\<close> sets: the decoder takes
  the flag and returns it, with the message and the outcome.

  \<^verbatim>\<open>
  func (m *Message) decodeSpecialNetFns(data []byte, df gopacket.DecodeFeedback) (int, error) {
      m.Body = 0
      m.Enterprise = 0
      switch m.Function {
      case NetworkFunctionGroupReq, NetworkFunctionGroupRsp:
          if len(data) < 1 {
              df.SetTruncated()
              return 0, fmt.Errorf("data too short for body code")
          }
          m.Body = BodyCode(data[0])
          return 1, nil
      case NetworkFunctionOEMReq, NetworkFunctionOEMRsp:
          if len(data) < 3 {
              df.SetTruncated()
              return 0, fmt.Errorf("data too short for OEM EN")
          }
          m.Enterprise = iana.Enterprise(
              uint32(data[0]) | uint32(data[1])<<8 | uint32(data[2])<<16)
          return 3, nil
      default:
          return 0, nil
      }
  }
  \<close>
\<close>

definition decodeSpecialNetFns ::
  "Message \<Rightarrow> byte list \<Rightarrow> bool \<Rightarrow> Message \<times> bool \<times> int \<times> outcome" where
  "decodeSpecialNetFns m0 data df =
     (let m = m0\<lparr>Body := 0, Enterprise := 0\<rparr> in
      if Function m = NetworkFunctionGroupReq \<or> Function m = NetworkFunctionGroupRsp then
        (if int (length data) < 1 then (m, True, 0, Failed BodyCodeTooShort)
         else case at data 0 of
                None \<Rightarrow> (m, df, 0, Panic)
              | Some b \<Rightarrow> (m\<lparr>Body := b\<rparr>, df, 1, OK))
      else if Function m = NetworkFunctionOEMReq \<or> Function m = NetworkFunctionOEMRsp then
        (if int (length data) < 3 then (m, True, 0, Failed OEMENTooShort)
         else case (at data 0, at data 1, at data 2) of
                (Some b0, Some b1, Some b2) \<Rightarrow>
                  (m\<lparr>Enterprise := ucast b0 OR push_bit 8 (ucast b1) OR push_bit 16 (ucast b2)\<rparr>,
                   df, 3, OK)
              | _ \<Rightarrow> (m, df, 0, Panic))
      else (m, df, 0, OK))"

text \<open>
  \<^verbatim>\<open>
  func (m *Message) decodeDataHeader(data []byte, start int, df gopacket.DecodeFeedback) error {
      consumed, err := m.decodeSpecialNetFns(data[start:len(data)-1], df)
      if err != nil {
          return err
      }
      m.BaseLayer.Contents = data[:start+consumed]
      m.BaseLayer.Payload = data[start+consumed : len(data)-1]
      return nil
  }
  \<close>
\<close>

definition decodeDataHeader ::
  "Message \<Rightarrow> byte list \<Rightarrow> int \<Rightarrow> bool \<Rightarrow> Message \<times> bool \<times> outcome" where
  "decodeDataHeader m data start df =
     (case slice data start (int (length data) - 1) of
        None \<Rightarrow> (m, df, Panic)
      | Some region \<Rightarrow>
          (case decodeSpecialNetFns m region df of
             (m1, df1, consumed, OK) \<Rightarrow>
               (case slice data 0 (start + consumed) of
                  None \<Rightarrow> (m1, df1, Panic)
                | Some contents \<Rightarrow>
                    (case slice data (start + consumed) (int (length data) - 1) of
                       None \<Rightarrow> (m1\<lparr>Contents := contents\<rparr>, df1, Panic)
                     | Some payload \<Rightarrow>
                         (m1\<lparr>Contents := contents, Payload := payload\<rparr>, df1, OK)))
           | (m1, df1, consumed, err) \<Rightarrow> (m1, df1, err)))"

text \<open>
  \<^verbatim>\<open>
  func (m *Message) decodeRequest(data []byte, df gopacket.DecodeFeedback) error {
      m.CompletionCode = 0
      return m.decodeDataHeader(data, 6, df)
  }

  func (m *Message) decodeResponse(data []byte, df gopacket.DecodeFeedback) error {
      m.CompletionCode = CompletionCode(data[6]) // already validated min length of 7
      return m.decodeDataHeader(data, 7, df)
  }
  \<close>
\<close>

definition decodeRequest :: "Message \<Rightarrow> byte list \<Rightarrow> bool \<Rightarrow> Message \<times> bool \<times> outcome" where
  "decodeRequest m data df = decodeDataHeader (m\<lparr>CompletionCode := 0\<rparr>) data 6 df"

definition decodeResponse :: "Message \<Rightarrow> byte list \<Rightarrow> bool \<Rightarrow> Message \<times> bool \<times> outcome" where
  "decodeResponse m data df =
     (case at data 6 of
        None \<Rightarrow> (m, df, Panic)
      | Some c \<Rightarrow> decodeDataHeader (m\<lparr>CompletionCode := c\<rparr>) data 7 df)"

text \<open>
  \<^verbatim>\<open>
  func (m *Message) DecodeFromBytes(data []byte, df gopacket.DecodeFeedback) error {
      if len(data) < 7 {
          df.SetTruncated()
          return fmt.Errorf("must be at least 7 bytes, got %v", len(data))
      }
      m.RemoteAddress = Address(data[0])
      m.Function = NetworkFunction(data[1] >> 2)
      m.RemoteLUN = LUN(data[1] & 0x3)
      m.Checksum1 = uint8(data[2])
      if want := checksum(data[:2]); m.Checksum1 != want {
          return fmt.Errorf("invalid checksum1: got %v, want %v", m.Checksum1, want)
      }
      m.LocalAddress = Address(data[3])
      m.Sequence = uint8(data[4] >> 2)
      m.LocalLUN = LUN(data[4] & 0x3)
      m.Command = CommandNumber(data[5])
      m.Checksum2 = uint8(data[len(data)-1])
      if want := checksum(data[3 : len(data)-1]); m.Checksum2 != want {
          return fmt.Errorf("invalid checksum2: got %v, want %v", m.Checksum2, want)
      }
      if m.Function.IsRequest() {
          return m.decodeRequest(data, df)
      }
      return m.decodeResponse(data, df)
  }
  \<close>
  The first block of reads is \<open>decodeHeader1\<close>, the second \<open>decodeHeader2\<close>; each
  gives the message with the fields assigned so far and the checksum wanted, or
  \<open>None\<close> when a read panics.
\<close>

definition decodeHeader1 :: "Message \<Rightarrow> byte list \<Rightarrow> (Message \<times> byte) option" where
  "decodeHeader1 m data =
     (case (at data 0, at data 1, at data 2, slice data 0 2) of
        (Some b0, Some b1, Some b2, Some span) \<Rightarrow>
          Some (m\<lparr>RemoteAddress := b0, Function := drop_bit 2 b1, RemoteLUN := b1 AND 0x3,
                  Checksum1 := b2\<rparr>, checksum span)
      | _ \<Rightarrow> None)"

definition decodeHeader2 :: "Message \<Rightarrow> byte list \<Rightarrow> (Message \<times> byte) option" where
  "decodeHeader2 m data =
     (case (at data 3, at data 4, at data 5, at data (int (length data) - 1),
            slice data 3 (int (length data) - 1)) of
        (Some b3, Some b4, Some b5, Some bl, Some span) \<Rightarrow>
          Some (m\<lparr>LocalAddress := b3, Sequence := drop_bit 2 b4, LocalLUN := b4 AND 0x3,
                  Command := b5, Checksum2 := bl\<rparr>, checksum span)
      | _ \<Rightarrow> None)"

definition DecodeFromBytes :: "Message \<Rightarrow> byte list \<Rightarrow> bool \<Rightarrow> Message \<times> bool \<times> outcome" where
  "DecodeFromBytes m data df =
     (if int (length data) < 7 then (m, True, Failed (TooShort (int (length data))))
      else
        (case decodeHeader1 m data of
           None \<Rightarrow> (m, df, Panic)
         | Some (m1, want1) \<Rightarrow>
             (if Checksum1 m1 \<noteq> want1
              then (m1, df, Failed (InvalidChecksum1 (Checksum1 m1) want1))
              else
                (case decodeHeader2 m1 data of
                   None \<Rightarrow> (m1, df, Panic)
                 | Some (m2, want2) \<Rightarrow>
                     (if Checksum2 m2 \<noteq> want2
                      then (m2, df, Failed (InvalidChecksum2 (Checksum2 m2) want2))
                      else if IsRequest (Function m2) then decodeRequest m2 data df
                      else decodeResponse m2 data df)))))"

subsection \<open>Serialising\<close>

text \<open>
  \<^verbatim>\<open>
  func (m *Message) serializeLength() int {
      length := 6
      if !m.Function.IsRequest() {
          length++
      }
      switch m.Function {
      case NetworkFunctionGroupReq, NetworkFunctionGroupRsp:
          length++
      case NetworkFunctionOEMReq, NetworkFunctionOEMRsp:
          length += 3
      }
      return length
  }
  \<close>
\<close>

definition serializeLength :: "Message \<Rightarrow> int" where
  "serializeLength m =
     (let length1 = (if \<not> IsRequest (Function m) then 6 + 1 else 6) in
      if Function m = NetworkFunctionGroupReq \<or> Function m = NetworkFunctionGroupRsp
      then length1 + 1
      else if Function m = NetworkFunctionOEMReq \<or> Function m = NetworkFunctionOEMRsp
      then length1 + 3
      else length1)"

text \<open>
  gopacket's \<^verbatim>\<open>SerializeBuffer\<close> is the list of the bytes serialised so far (the payload
  of this layer, since layers are serialised innermost first). \<^verbatim>\<open>PrependBytes(n)\<close> puts
  \<open>n\<close> bytes in front of them and returns the slice of these bytes, which aliases the
  buffer; gopacket leaves their content indeterminate, here the bytes \<open>junk 0\<close>,
  \<open>junk 1\<close>, ... of a parameter. It fails on a negative \<open>n\<close> only, as \<^verbatim>\<open>AppendBytes\<close>
  does. Of \<^verbatim>\<open>SerializeOptions\<close> the serialiser reads \<^verbatim>\<open>ComputeChecksums\<close>.
\<close>

record SerializeOptions =
  FixLengths :: bool
  ComputeChecksums :: bool

definition PrependBytes :: "(nat \<Rightarrow> byte) \<Rightarrow> int \<Rightarrow> byte list option" where
  "PrependBytes junk n = (if n < 0 then None else Some (map junk [0..<nat n]))"

text \<open>
  \<^verbatim>\<open>
      header[0] = uint8(m.RemoteAddress)
      header[1] = uint8(m.Function)<<2 | uint8(m.RemoteLUN)
      if opts.ComputeChecksums {
          m.Checksum1 = checksum(header[0:2])
      }
      header[2] = m.Checksum1
      header[3] = uint8(m.LocalAddress)
      header[4] = uint8(m.Sequence)<<2 | uint8(m.LocalLUN)
      header[5] = uint8(m.Command)
      offset := 6
      if !m.Function.IsRequest() {
          header[offset] = uint8(m.CompletionCode)
          offset++
      }
      switch m.Function {
      case NetworkFunctionGroupReq, NetworkFunctionGroupRsp:
          header[offset] = uint8(m.Body)
      case NetworkFunctionOEMReq, NetworkFunctionOEMRsp:
          enterprise := uint32(m.Enterprise)
          header[offset] = uint8(enterprise)
          header[offset+1] = uint8(enterprise >> 8)
          header[offset+2] = uint8(enterprise >> 16)
      }
      if opts.ComputeChecksums {
          payload := b.Bytes()
          m.Checksum2 = checksum(payload[3:])
      }
  \<close>
  These are the statements of \<^verbatim>\<open>SerializeTo\<close> between \<^verbatim>\<open>PrependBytes\<close> and
  \<^verbatim>\<open>AppendBytes\<close>, on the message, the header slice and the bytes \<open>b\<close> behind it;
  \<^verbatim>\<open>b.Bytes()\<close> is the header followed by \<open>b\<close>. \<open>None\<close> is a panic.
\<close>

definition serializeHeader ::
  "Message \<Rightarrow> bool \<Rightarrow> byte list \<Rightarrow> byte list \<Rightarrow> (Message \<times> byte list) option" where
  "serializeHeader m0 compute header b = do {
     h \<leftarrow> set_at header 0 (RemoteAddress m0);
     h \<leftarrow> set_at h 1 (push_bit 2 (Function m0) OR RemoteLUN m0);
     m \<leftarrow> (if compute then map_option (\<lambda>span. m0\<lparr>Checksum1 := checksum span\<rparr>) (slice h 0 2)
            else Some m0);
     h \<leftarrow> set_at h 2 (Checksum1 m);
     h \<leftarrow> set_at h 3 (LocalAddress m);
     h \<leftarrow> set_at h 4 (push_bit 2 (Sequence m) OR LocalLUN m);
     h \<leftarrow> set_at h 5 (Command m);
     (h, offset) \<leftarrow> (if \<not> IsRequest (Function m)
                     then map_option (\<lambda>h'. (h', 6 + 1)) (set_at h 6 (CompletionCode m))
                     else Some (h, 6));
     h \<leftarrow> (if Function m = NetworkFunctionGroupReq \<or> Function m = NetworkFunctionGroupRsp
            then set_at h offset (Body m)
            else if Function m = NetworkFunctionOEMReq \<or> Function m = NetworkFunctionOEMRsp
            then do {
              h \<leftarrow> set_at h offset (ucast (Enterprise m));
              h \<leftarrow> set_at h (offset + 1) (ucast (drop_bit 8 (Enterprise m)));
              set_at h (offset + 2) (ucast (drop_bit 16 (Enterprise m)))
            }
            else Some h);
     m \<leftarrow> (if compute
            then map_option (\<lambda>span. m\<lparr>Checksum2 := checksum span\<rparr>)
                   (slice (h @ b) 3 (int (length (h @ b))))
            else Some m);
     Some (m, h)
   }"

text \<open>
  \<^verbatim>\<open>
  func (m *Message) SerializeTo(b gopacket.SerializeBuffer, opts gopacket.SerializeOptions) error {
      header, err := b.PrependBytes(m.serializeLength())
      if err != nil {
          return err
      }
      ...
      trailer, err := b.AppendBytes(1)
      if err != nil {
          return err
      }
      trailer[0] = m.Checksum2
      return nil
  }
  \<close>
  The result is the message, the buffer and the outcome.
\<close>

datatype serialize_outcome = Serialized | NegativeSize | SerializePanic

definition SerializeTo ::
  "Message \<Rightarrow> byte list \<Rightarrow> SerializeOptions \<Rightarrow> (nat \<Rightarrow> byte)
     \<Rightarrow> Message \<times> byte list \<times> serialize_outcome" where
  "SerializeTo m b opts junk =
     (case PrependBytes junk (serializeLength m) of
        None \<Rightarrow> (m, b, NegativeSize)
      | Some header \<Rightarrow>
          (case serializeHeader m (ComputeChecksums opts) header b of
             None \<Rightarrow> (m, header @ b, SerializePanic)
           | Some (m1, h) \<Rightarrow> (m1, h @ b @ [Checksum2 m1], Serialized)))"

subsection \<open>The confidentiality layer\<close>

text \<open>
  Modelled from the spec: the identifiers \<^verbatim>\<open>ConfidentialityAlgorithmNone\<close> and
  \<^verbatim>\<open>ConfidentialityAlgorithmAESCBC128\<close> are declared in \<^verbatim>\<open>pkg/ipmi\<close>, outside the sources;
  they are the IPMI numbers 0 and 1 of the two variants the spec lists. The constructor
  \<^verbatim>\<open>ipmi.NewAES128CBC\<close> and the generator's method \<^verbatim>\<open>K\<close> are outside the sources too and
  are parameters: \<open>NewAES128CBC\<close> maps the 16-byte key to an error or a cipher, \<open>K\<close>
  maps the key index to the key material.
\<close>

type_synonym ConfidentialityAlgorithm = byte

definition ConfidentialityAlgorithmNone :: ConfidentialityAlgorithm where
  "ConfidentialityAlgorithmNone = 0x00"

definition ConfidentialityAlgorithmAESCBC128 :: ConfidentialityAlgorithm where
  "ConfidentialityAlgorithmAESCBC128 = 0x01"

text \<open>
  Go's \<^verbatim>\<open>copy(dst, src)\<close> overwrites the first \<^verbatim>\<open>min(len(dst), len(src))\<close> elements of
  \<open>dst\<close>.
\<close>

definition go_copy :: "'a list \<Rightarrow> 'a list \<Rightarrow> 'a list" where
  "go_copy dst src = take (length dst) src @ drop (length src) dst"

datatype 'e cipher_error =
    UnsupportedConfidentialityAlgorithm ConfidentialityAlgorithm
  | ConstructorError 'e

text \<open>
  \<^verbatim>\<open>
  func algorithmCipher(a ipmi.ConfidentialityAlgorithm, g AdditionalKeyMaterialGenerator) (layerexts.SerializableDecodingLayer, error) {
      switch a {
      case ipmi.ConfidentialityAlgorithmNone:
          return nil, nil
      case ipmi.ConfidentialityAlgorithmAESCBC128:
          key := [16]byte{}
          copy(key[:], g.K(2))
          return ipmi.NewAES128CBC(key)
      default:
          return nil, fmt.Errorf("unsupported confidentiality algorithm: %v", a)
      }
  }
  \<close>
  The result is the error, or the layer, \<open>None\<close> for the \<^verbatim>\<open>nil\<close> layer.
\<close>

definition algorithmCipher ::
  "(byte list \<Rightarrow> 'e + 'c) \<Rightarrow> ConfidentialityAlgorithm \<Rightarrow> (int \<Rightarrow> byte list)
     \<Rightarrow> 'e cipher_error + 'c option" where
  "algorithmCipher NewAES128CBC a K =
     (if a = ConfidentialityAlgorithmNone then Inr None
      else if a = ConfidentialityAlgorithmAESCBC128 then
        (let key = go_copy (replicate 16 0) (K 2) in
         case NewAES128CBC key of
           Inl e \<Rightarrow> Inl (ConstructorError e)
         | Inr c \<Rightarrow> Inr (Some c))
      else Inl (UnsupportedConfidentialityAlgorithm a))"

subsection \<open>The header on the wire\<close>

text \<open>
  The header bytes as the struct comment lays them out, for a message and the
  \<^verbatim>\<open>ComputeChecksums\<close> option: the six fixed bytes, the completion code of a response, and
  the body code or the three bytes of the enterprise number. The serialiser is shown below
  to write these bytes (\<open>serializeHeader_eq\<close>), whatever the fresh header held.
\<close>

definition headerBytes :: "Message \<Rightarrow> bool \<Rightarrow> byte list" where
  "headerBytes m compute =
     [RemoteAddress m, push_bit 2 (Function m) OR RemoteLUN m,
      (if compute then checksum [RemoteAddress m, push_bit 2 (Function m) OR RemoteLUN m]
       else Checksum1 m),
      LocalAddress m, push_bit 2 (Sequence m) OR LocalLUN m, Command m]
     @ (if IsRequest (Function m) then [] else [CompletionCode m])
     @ (if Function m = NetworkFunctionGroupReq \<or> Function m = NetworkFunctionGroupRsp
        then [Body m]
        else if Function m = NetworkFunctionOEMReq \<or> Function m = NetworkFunctionOEMRsp
        then [ucast (Enterprise m), ucast (drop_bit 8 (Enterprise m)),
              ucast (drop_bit 16 (Enterprise m))]
        else [])"

subsection \<open>Consistent fields\<close>

text \<open>
  The struct holds each field in a byte (the enterprise number in a \<^verbatim>\<open>uint32\<close>), the
  wire gives the function and the sequence number 6 bits, a LUN 2 bits and the enterprise
  number of an OEM function 24 bits. The fields of a message are consistent when they fit.
\<close>

definition consistentFields :: "Message \<Rightarrow> bool" where
  "consistentFields m \<longleftrightarrow>
     Function m < 64 \<and> RemoteLUN m < 4 \<and> LocalLUN m < 4 \<and> Sequence m < 64
     \<and> (Function m = NetworkFunctionOEMReq \<or> Function m = NetworkFunctionOEMRsp
          \<longrightarrow> Enterprise m < 2 ^ 24)"

subsection \<open>A message to decode into\<close>

text \<open>
  The zero value of the struct, \<^verbatim>\<open>Message{}\<close>, into which a caller decodes.
\<close>

definition zeroMessage :: Message where
  "zeroMessage =
     \<lparr>Function = 0, Body = 0, Enterprise = 0, Command = 0, Contents = [], Payload = [],
      RemoteAddress = 0, RemoteLUN = 0, Checksum1 = 0, LocalAddress = 0, LocalLUN = 0,
      Sequence = 0, CompletionCode = 0, Checksum2 = 0\<rparr>"

section \<open>Properties\<close>

subsection \<open>Requests are the even function codes\<close>

lemma IsRequest_even: "IsRequest n \<longleftrightarrow> even n"
  by (simp add: IsRequest_def and_one_eq mod_2_eq_odd)

subsection \<open>Slices and the decoder, step by step\<close>

lemma nat_len_diff: "nat (int (length xs) - 1) = length xs - 1"
  "nat (int (length xs) - 4) = length xs - 4"
  by simp_all

lemma decodeHeader1_eq:
  "7 \<le> length data \<Longrightarrow> decodeHeader1 m data =
     Some (m\<lparr>RemoteAddress := data ! 0, Function := drop_bit 2 (data ! 1),
             RemoteLUN := data ! 1 AND 0x3, Checksum1 := data ! 2\<rparr>, checksum (take 2 data))"
  by (auto simp add: decodeHeader1_def at_def slice_def)

lemma decodeHeader2_eq:
  "7 \<le> length data \<Longrightarrow> decodeHeader2 m data =
     Some (m\<lparr>LocalAddress := data ! 3, Sequence := drop_bit 2 (data ! 4),
             LocalLUN := data ! 4 AND 0x3, Command := data ! 5, Checksum2 := last data\<rparr>,
           checksum (take (length data - 4) (drop 3 data)))"
  by (auto simp add: decodeHeader2_def at_def slice_def last_conv_nth nat_len_diff)

lemma decodeSpecialNetFns_eq:
  "decodeSpecialNetFns m data df =
     (if Function m = NetworkFunctionGroupReq \<or> Function m = NetworkFunctionGroupRsp then
        (if length data < 1 then (m\<lparr>Body := 0, Enterprise := 0\<rparr>, True, 0, Failed BodyCodeTooShort)
         else (m\<lparr>Body := data ! 0, Enterprise := 0\<rparr>, df, 1, OK))
      else if Function m = NetworkFunctionOEMReq \<or> Function m = NetworkFunctionOEMRsp then
        (if length data < 3 then (m\<lparr>Body := 0, Enterprise := 0\<rparr>, True, 0, Failed OEMENTooShort)
         else (m\<lparr>Body := 0,
                 Enterprise := ucast (data ! 0) OR push_bit 8 (ucast (data ! 1))
                                 OR push_bit 16 (ucast (data ! 2))\<rparr>, df, 3, OK))
      else (m\<lparr>Body := 0, Enterprise := 0\<rparr>, df, 0, OK))"
  by (auto simp add: decodeSpecialNetFns_def at_def Let_def)

lemma take_drop_butlast: "take (length xs - 1 - n) (drop n xs) = drop n (butlast xs)"
  by (simp add: butlast_conv_take drop_take)

lemma slice_region:
  "0 \<le> lo \<Longrightarrow> lo \<le> int (length xs) - 1
   \<Longrightarrow> slice xs lo (int (length xs) - 1) = Some (drop (nat lo) (butlast xs))"
proof -
  assume a: "0 \<le> lo" "lo \<le> int (length xs) - 1"
  then have "nat (int (length xs) - 1 - lo) = length xs - 1 - nat lo" by arith
  then have "take (nat (int (length xs) - 1 - lo)) (drop (nat lo) xs) = drop (nat lo) (butlast xs)"
    by (simp only: take_drop_butlast)
  with a show ?thesis by (simp add: slice_def)
qed

lemma slice_prefix:
  "0 \<le> hi \<Longrightarrow> hi \<le> int (length xs) \<Longrightarrow> slice xs 0 hi = Some (take (nat hi) xs)"
  by (simp add: slice_def)

lemma slice_None: "hi < lo \<Longrightarrow> slice xs lo hi = None"
  by (simp add: slice_def)

lemma decodeDataHeader_eq:
  assumes "0 \<le> start" and "start \<le> int (length data) - 1"
  shows "decodeDataHeader m data start df =
     (if Function m = NetworkFunctionGroupReq \<or> Function m = NetworkFunctionGroupRsp then
        (if int (length data) - 1 - start < 1
         then (m\<lparr>Body := 0, Enterprise := 0\<rparr>, True, Failed BodyCodeTooShort)
         else (m\<lparr>Body := data ! nat start, Enterprise := 0,
                 Contents := take (nat start + 1) data,
                 Payload := drop (nat start + 1) (butlast data)\<rparr>, df, OK))
      else if Function m = NetworkFunctionOEMReq \<or> Function m = NetworkFunctionOEMRsp then
        (if int (length data) - 1 - start < 3
         then (m\<lparr>Body := 0, Enterprise := 0\<rparr>, True, Failed OEMENTooShort)
         else (m\<lparr>Body := 0,
                 Enterprise := ucast (data ! nat start)
                                 OR push_bit 8 (ucast (data ! (nat start + 1)))
                                 OR push_bit 16 (ucast (data ! (nat start + 2))),
                 Contents := take (nat start + 3) data,
                 Payload := drop (nat start + 3) (butlast data)\<rparr>, df, OK))
      else (m\<lparr>Body := 0, Enterprise := 0, Contents := take (nat start) data,
              Payload := drop (nat start) (butlast data)\<rparr>, df, OK))"
proof -
  have len: "int (length (drop (nat start) (butlast data))) = int (length data) - 1 - start"
    using assms by simp
  have nth: "\<And>k. int k < int (length data) - 1 - start
               \<Longrightarrow> drop (nat start) (butlast data) ! k = data ! (nat start + k)"
    using assms by (simp add: nth_butlast)
  have reg: "slice data start (int (length data) - 1) = Some (drop (nat start) (butlast data))"
    using assms by (rule slice_region)
  show ?thesis
  proof (cases "Function m = NetworkFunctionGroupReq \<or> Function m = NetworkFunctionGroupRsp")
    case True
    show ?thesis
    proof (cases "int (length data) - 1 - start < 1")
      case short: True
      then have "length (drop (nat start) (butlast data)) < 1" using len by linarith
      with True short show ?thesis
        unfolding decodeDataHeader_def reg decodeSpecialNetFns_eq by simp
    next
      case long: False
      then have l: "\<not> length (drop (nat start) (butlast data)) < 1" using len by linarith
      have p: "slice data (start + 1) (int (length data) - 1)
                 = Some (drop (nat start + 1) (butlast data))"
        using slice_region [of "start + 1" data] assms long by (simp add: nat_add_distrib)
      have c: "slice data 0 (start + 1) = Some (take (nat start + 1) data)"
        using slice_prefix [of "start + 1" data] assms long by (simp add: nat_add_distrib)
      have n0: "drop (nat start) (butlast data) ! 0 = data ! nat start"
        using nth [of 0] long by simp
      from True long l show ?thesis
        unfolding decodeDataHeader_def reg decodeSpecialNetFns_eq
        by (simp add: p c n0 del: length_drop length_butlast)
    qed
  next
    case notgroup: False
    show ?thesis
    proof (cases "Function m = NetworkFunctionOEMReq \<or> Function m = NetworkFunctionOEMRsp")
      case True
      show ?thesis
      proof (cases "int (length data) - 1 - start < 3")
        case short: True
        then have "length (drop (nat start) (butlast data)) < 3" using len by linarith
        with True notgroup short show ?thesis
          unfolding decodeDataHeader_def reg decodeSpecialNetFns_eq by simp
      next
        case long: False
        then have l: "\<not> length (drop (nat start) (butlast data)) < 3" using len by linarith
        have p: "slice data (start + 3) (int (length data) - 1)
                   = Some (drop (nat start + 3) (butlast data))"
          using slice_region [of "start + 3" data] assms long by (simp add: nat_add_distrib)
        have c: "slice data 0 (start + 3) = Some (take (nat start + 3) data)"
          using slice_prefix [of "start + 3" data] assms long by (simp add: nat_add_distrib)
        have n: "drop (nat start) (butlast data) ! 0 = data ! nat start"
          "drop (nat start) (butlast data) ! Suc 0 = data ! (nat start + 1)"
          "drop (nat start) (butlast data) ! 2 = data ! (nat start + 2)"
          using nth [of 0] nth [of 1] nth [of 2] long by simp_all
        from True notgroup long l show ?thesis
          unfolding decodeDataHeader_def reg decodeSpecialNetFns_eq
          by (simp add: p c n del: length_drop length_butlast)
      qed
    next
      case False
      have p: "slice data start (int (length data) - 1) = Some (drop (nat start) (butlast data))"
        by (rule reg)
      have c: "slice data 0 start = Some (take (nat start) data)"
        using slice_prefix [of start data] assms by simp
      from False notgroup show ?thesis
        unfolding decodeDataHeader_def reg decodeSpecialNetFns_eq
        by (simp add: p c)
    qed
  qed
qed

lemma decodeDataHeader_panic:
  "int (length data) - 1 < start \<Longrightarrow> decodeDataHeader m data start df = (m, df, Panic)"
  by (simp add: decodeDataHeader_def slice_None)

lemma DecodeFromBytes_eq:
  assumes "7 \<le> length data"
  shows "DecodeFromBytes m data df =
     (if data ! 2 \<noteq> checksum (take 2 data)
      then (m\<lparr>RemoteAddress := data ! 0, Function := drop_bit 2 (data ! 1),
              RemoteLUN := data ! 1 AND 0x3, Checksum1 := data ! 2\<rparr>, df,
            Failed (InvalidChecksum1 (data ! 2) (checksum (take 2 data))))
      else if last data \<noteq> checksum (take (length data - 4) (drop 3 data))
      then (m\<lparr>RemoteAddress := data ! 0, Function := drop_bit 2 (data ! 1),
              RemoteLUN := data ! 1 AND 0x3, Checksum1 := data ! 2,
              LocalAddress := data ! 3, Sequence := drop_bit 2 (data ! 4),
              LocalLUN := data ! 4 AND 0x3, Command := data ! 5, Checksum2 := last data\<rparr>, df,
            Failed (InvalidChecksum2 (last data) (checksum (take (length data - 4) (drop 3 data)))))
      else if IsRequest (drop_bit 2 (data ! 1))
      then decodeDataHeader
             (m\<lparr>RemoteAddress := data ! 0, Function := drop_bit 2 (data ! 1),
                RemoteLUN := data ! 1 AND 0x3, Checksum1 := data ! 2,
                LocalAddress := data ! 3, Sequence := drop_bit 2 (data ! 4),
                LocalLUN := data ! 4 AND 0x3, Command := data ! 5, Checksum2 := last data,
                CompletionCode := 0\<rparr>) data 6 df
      else decodeDataHeader
             (m\<lparr>RemoteAddress := data ! 0, Function := drop_bit 2 (data ! 1),
                RemoteLUN := data ! 1 AND 0x3, Checksum1 := data ! 2,
                LocalAddress := data ! 3, Sequence := drop_bit 2 (data ! 4),
                LocalLUN := data ! 4 AND 0x3, Command := data ! 5, Checksum2 := last data,
                CompletionCode := data ! 6\<rparr>) data 7 df)"
proof -
  have six: "at data 6 = Some (data ! 6)" using assms by (simp add: at_def)
  from assms show ?thesis
    unfolding DecodeFromBytes_def
    by (simp add: decodeHeader1_eq decodeHeader2_eq decodeRequest_def decodeResponse_def six)
qed

subsection \<open>The checksum is the two's complement of the byte sum\<close>

lemma foldl_add_sum: "foldl (\<lambda>c b. c + b) (c::byte) data = c + sum_list data"
  by (induction data arbitrary: c) (simp_all add: add.assoc)

lemma unat_sum_list: "unat (sum_list (data::byte list)) = sum_list (map unat data) mod 256"
  by (induction data) (simp_all add: unat_word_ariths mod_add_right_eq)

text \<open>
  Claim C5. For every byte sequence, the 8-bit sum of the bytes plus \<open>checksum data\<close> is
  zero: as bytes (the addition wraps), and as numbers taken modulo 256.
\<close>

theorem checksum_sum_zero:
  "sum_list data + checksum data = 0
   \<and> (sum_list (map unat data) + unat (checksum data)) mod 256 = 0"
proof
  show a: "sum_list data + checksum data = 0"
    by (simp add: checksum_def foldl_add_sum)
  have "unat (sum_list data + checksum data) = (unat (sum_list data) + unat (checksum data)) mod 256"
    by (simp add: unat_word_ariths)
  also have "\<dots> = (sum_list (map unat data) + unat (checksum data)) mod 256"
    by (simp add: unat_sum_list mod_add_left_eq)
  finally show "(sum_list (map unat data) + unat (checksum data)) mod 256 = 0"
    using a by simp
qed

subsection \<open>Inputs shorter than 7 bytes\<close>

text \<open>
  Claim C4. An input of fewer than 7 bytes is refused with the truncated flag set and the
  length error returned: neither a checksum error nor a panic, and the message is as it
  was.
\<close>

theorem decode_truncated:
  "length data < 7 \<Longrightarrow>
     DecodeFromBytes m data df = (m, True, Failed (TooShort (int (length data))))"
  by (simp add: DecodeFromBytes_def)

theorem decode_truncated_witness:
  "length [0x20, 0x18, 0xc8 :: byte] < 7
   \<and> DecodeFromBytes zeroMessage [0x20, 0x18, 0xc8] False = (zeroMessage, True, Failed (TooShort 3))"
  using decode_truncated [of "[0x20, 0x18, 0xc8]" zeroMessage False] by simp

subsection \<open>Inputs of at least 7 bytes\<close>

text \<open>
  From 8 bytes on the decoder never panics. At exactly 7 bytes it panics exactly when both
  checksums hold and the function is a response: offset 6 is read, and then the data
  region \<^verbatim>\<open>data[7:6]\<close> has its lower bound above its upper bound.
\<close>

lemma decode_no_panic_from_8:
  assumes "8 \<le> length data"
  shows "snd (snd (DecodeFromBytes m data df)) \<noteq> Panic"
proof -
  have a: "7 \<le> length data" "(0::int) \<le> 6" "6 \<le> int (length data) - 1"
    "(0::int) \<le> 7" "7 \<le> int (length data) - 1"
    using assms by simp_all
  show ?thesis
    unfolding DecodeFromBytes_eq [OF a(1)]
      decodeDataHeader_eq [OF a(2) a(3)] decodeDataHeader_eq [OF a(4) a(5)]
    by simp
qed

lemma decode_panics_iff:
  assumes "7 \<le> length data"
  shows "snd (snd (DecodeFromBytes m data df)) = Panic \<longleftrightarrow>
           length data = 7 \<and> data ! 2 = checksum (take 2 data)
           \<and> last data = checksum (take 3 (drop 3 data))
           \<and> \<not> IsRequest (drop_bit 2 (data ! 1))"
proof (cases "length data = 7")
  case True
  have a: "(0::int) \<le> 6" "6 \<le> int (length data) - 1" "int (length data) - 1 < 7"
    using True by simp_all
  show ?thesis
    unfolding DecodeFromBytes_eq [OF assms] decodeDataHeader_eq [OF a(1) a(2)]
      decodeDataHeader_panic [OF a(3)]
    using True by simp
next
  case False
  then have "8 \<le> length data" using assms by simp
  from decode_no_panic_from_8 [OF this] False show ?thesis by simp
qed

text \<open>
  Claim C2. The claim is that decoding 7 bytes or more ends in success, a truncation error
  or a checksum error, and never in a run-time fault. The 7 bytes below are an App response
  (function 7) with both checksums right and nothing after the command byte but the
  trailing checksum. The decoder reads that byte as the completion code as well, and then
  panics in \<^verbatim>\<open>decodeDataHeader\<close> on the slice \<^verbatim>\<open>data[7:6]\<close>.
\<close>

theorem decode_response_7_bytes_panics:
  "DecodeFromBytes m [0x20, 0x1c, 0xc4, 0x81, 0x14, 0x38, 0x33] df
     = (m\<lparr>Function := NetworkFunctionAppRsp, Command := 0x38, RemoteAddress := 0x20,
          RemoteLUN := 0, Checksum1 := 0xc4, LocalAddress := 0x81, LocalLUN := 0, Sequence := 5,
          CompletionCode := 0x33, Checksum2 := 0x33\<rparr>, df, Panic)"
  by (simp add: DecodeFromBytes_eq checksum_def IsRequest_def decodeDataHeader_panic
      NetworkFunctionAppRsp_def)

subsection \<open>Checksum failures\<close>

text \<open>
  Claim C3 says that a decode stopped by a checksum failure leaves the message it decodes
  into unchanged. The decoder assigns each field as it reads it, before it verifies the
  checksum: decoding 7 bytes with a wrong first checksum into the zero message fails with
  the checksum error and leaves the remote address and the function of the input in the
  message.
\<close>

theorem decode_checksum_failure_mutates:
  "snd (snd (DecodeFromBytes zeroMessage [0x20, 0x18, 0x00, 0x81, 0x14, 0x38, 0x33] False))
     = Failed (InvalidChecksum1 0x00 0xc8)
   \<and> fst (DecodeFromBytes zeroMessage [0x20, 0x18, 0x00, 0x81, 0x14, 0x38, 0x33] False)
       \<noteq> zeroMessage"
  by (simp add: DecodeFromBytes_eq checksum_def zeroMessage_def)

text \<open>
  Claim C3 as amended: on an input of at least 7 bytes, a failure of the first checksum
  stops the decoder with the error naming checksum 1 and the values got and wanted; the
  truncated flag is as it was, and the message differs from the one passed in by the four
  fields read so far: \<open>RemoteAddress\<close>, \<open>Function\<close>, \<open>RemoteLUN\<close>, \<open>Checksum1\<close>.
  A failure of the second checksum stops it with the error naming checksum 2 and its
  values, with \<open>LocalAddress\<close>, \<open>Sequence\<close>, \<open>LocalLUN\<close>, \<open>Command\<close> and
  \<open>Checksum2\<close> assigned as well. The completion code, body code, enterprise number,
  contents and payload are never written by a decode that fails on a checksum.
\<close>

theorem decode_checksum_failure:
  assumes "7 \<le> length data"
  shows "(data ! 2 \<noteq> checksum (take 2 data) \<longrightarrow>
            DecodeFromBytes m data df =
              (m\<lparr>RemoteAddress := data ! 0, Function := drop_bit 2 (data ! 1),
                 RemoteLUN := data ! 1 AND 0x3, Checksum1 := data ! 2\<rparr>, df,
               Failed (InvalidChecksum1 (data ! 2) (checksum (take 2 data)))))
       \<and> (data ! 2 = checksum (take 2 data)
            \<and> last data \<noteq> checksum (take (length data - 4) (drop 3 data)) \<longrightarrow>
            DecodeFromBytes m data df =
              (m\<lparr>RemoteAddress := data ! 0, Function := drop_bit 2 (data ! 1),
                 RemoteLUN := data ! 1 AND 0x3, Checksum1 := data ! 2,
                 LocalAddress := data ! 3, Sequence := drop_bit 2 (data ! 4),
                 LocalLUN := data ! 4 AND 0x3, Command := data ! 5, Checksum2 := last data\<rparr>, df,
               Failed (InvalidChecksum2 (last data)
                         (checksum (take (length data - 4) (drop 3 data))))))"
  by (simp add: DecodeFromBytes_eq [OF assms])

theorem decode_checksum_failure_witness:
  "DecodeFromBytes zeroMessage [0x20, 0x18, 0x00, 0x81, 0x14, 0x38, 0x33] False =
     (zeroMessage\<lparr>RemoteAddress := 0x20, Function := 6\<rparr>, False,
      Failed (InvalidChecksum1 0x00 0xc8))
   \<and> DecodeFromBytes zeroMessage [0x20, 0x18, 0xc8, 0x81, 0x14, 0x38, 0x00] False =
     (zeroMessage\<lparr>RemoteAddress := 0x20, Function := 6, Checksum1 := 0xc8, LocalAddress := 0x81,
        Sequence := 5, Command := 0x38\<rparr>, False, Failed (InvalidChecksum2 0x00 0x33))"
proof -
  have l: "7 \<le> length [0x20, 0x18, 0x00, 0x81, 0x14, 0x38, 0x33 :: byte]"
    "7 \<le> length [0x20, 0x18, 0xc8, 0x81, 0x14, 0x38, 0x00 :: byte]"
    by simp_all
  show ?thesis
    using decode_checksum_failure [OF l(1), of zeroMessage False]
      decode_checksum_failure [OF l(2), of zeroMessage False]
    by (simp add: checksum_def zeroMessage_def)
qed

subsection \<open>A successful decode writes every field\<close>

lemma Message_all_fields:
  "m\<lparr>Function := a, Body := b, Enterprise := c, Command := d, Contents := e, Payload := f,
      RemoteAddress := g, RemoteLUN := h, Checksum1 := i, LocalAddress := j, LocalLUN := k,
      Sequence := l, CompletionCode := n, Checksum2 := p\<rparr> =
   \<lparr>Function = a, Body = b, Enterprise = c, Command = d, Contents = e, Payload = f,
      RemoteAddress = g, RemoteLUN = h, Checksum1 = i, LocalAddress = j, LocalLUN = k,
      Sequence = l, CompletionCode = n, Checksum2 = p\<rparr>"
  by (cases m) simp

lemma decode_ok_length:
  assumes "DecodeFromBytes m data df = (m', df', OK)"
  shows "7 \<le> length data"
    and "data ! 2 = checksum (take 2 data)"
    and "last data = checksum (take (length data - 4) (drop 3 data))"
    and "IsRequest (drop_bit 2 (data ! 1)) \<or> 8 \<le> length data"
proof -
  show l: "7 \<le> length data"
    using assms by (cases "7 \<le> length data") (simp_all add: DecodeFromBytes_def)
  show c1: "data ! 2 = checksum (take 2 data)"
    using assms unfolding DecodeFromBytes_eq [OF l] by (simp split: if_splits)
  show c2: "last data = checksum (take (length data - 4) (drop 3 data))"
    using assms c1 unfolding DecodeFromBytes_eq [OF l] by (simp split: if_splits)
  show "IsRequest (drop_bit 2 (data ! 1)) \<or> 8 \<le> length data"
  proof (rule ccontr)
    assume "\<not> (IsRequest (drop_bit 2 (data ! 1)) \<or> 8 \<le> length data)"
    then have r: "\<not> IsRequest (drop_bit 2 (data ! 1))" and "int (length data) - 1 < 7"
      by simp_all
    from decodeDataHeader_panic [OF this(2)] assms r c1 c2 show False
      unfolding DecodeFromBytes_eq [OF l] by simp
  qed
qed

lemma decode_checked:
  assumes "7 \<le> length data"
    and "data ! 2 = checksum (take 2 data)"
    and "last data = checksum (take (length data - 4) (drop 3 data))"
  shows "DecodeFromBytes m data df =
           decodeDataHeader
             (m\<lparr>RemoteAddress := data ! 0, Function := drop_bit 2 (data ! 1),
                RemoteLUN := data ! 1 AND 0x3, Checksum1 := data ! 2,
                LocalAddress := data ! 3, Sequence := drop_bit 2 (data ! 4),
                LocalLUN := data ! 4 AND 0x3, Command := data ! 5, Checksum2 := last data,
                CompletionCode := (if IsRequest (drop_bit 2 (data ! 1)) then 0 else data ! 6)\<rparr>)
             data (if IsRequest (drop_bit 2 (data ! 1)) then 6 else 7) df"
  using assms(2,3) unfolding DecodeFromBytes_eq [OF assms(1)] by simp

lemma decodeDataHeader_fields:
  assumes "decodeDataHeader m data start df = (m', df', OK)"
    and "0 \<le> start" and "start \<le> int (length data) - 1"
  shows "(Function m \<noteq> NetworkFunctionGroupReq \<and> Function m \<noteq> NetworkFunctionGroupRsp
            \<longrightarrow> Body m' = 0)"
    and "(Function m \<noteq> NetworkFunctionOEMReq \<and> Function m \<noteq> NetworkFunctionOEMRsp
            \<longrightarrow> Enterprise m' = 0)"
    and "Function m' = Function m" and "CompletionCode m' = CompletionCode m"
    and "df' = df"
  using assms(1) unfolding decodeDataHeader_eq [OF assms(2,3)]
  by (auto split: if_splits)

lemma decodeDataHeader_indep:
  assumes "decodeDataHeader m data start df = (m', df', OK)"
    and "0 \<le> start" and "start \<le> int (length data) - 1"
    and "Function n = Function m" "Command n = Command m" "RemoteAddress n = RemoteAddress m"
    "RemoteLUN n = RemoteLUN m" "Checksum1 n = Checksum1 m" "LocalAddress n = LocalAddress m"
    "LocalLUN n = LocalLUN m" "Sequence n = Sequence m" "CompletionCode n = CompletionCode m"
    "Checksum2 n = Checksum2 m"
  shows "decodeDataHeader n data start df = (m', df', OK)"
proof -
  have eq: "\<And>b e c p. n\<lparr>Body := b, Enterprise := e, Contents := c, Payload := p\<rparr>
                    = m\<lparr>Body := b, Enterprise := e, Contents := c, Payload := p\<rparr>"
    using assms(4-) by (cases m, cases n) simp
  from assms(1) show ?thesis
    unfolding decodeDataHeader_eq [OF assms(2,3)] assms(4)
    by (auto simp add: eq NetworkFunctionGroupReq_def NetworkFunctionGroupRsp_def
        NetworkFunctionOEMReq_def NetworkFunctionOEMRsp_def split: if_splits)
qed

text \<open>
  Claim C10. After a successful decode the body code is zero unless the function is a
  Group function, the enterprise number is zero unless the function is an OEM function, and
  the completion code is the normal one when the function is a request. Nothing of the
  message decoded into survives: decoding the same bytes into any other message \<open>n\<close>
  succeeds with the same message as result.
\<close>

theorem decode_assigns_conditional_fields:
  assumes "DecodeFromBytes m data df = (m', df', OK)"
  shows "(Function m' \<noteq> NetworkFunctionGroupReq \<and> Function m' \<noteq> NetworkFunctionGroupRsp
            \<longrightarrow> Body m' = 0)
       \<and> (Function m' \<noteq> NetworkFunctionOEMReq \<and> Function m' \<noteq> NetworkFunctionOEMRsp
            \<longrightarrow> Enterprise m' = 0)
       \<and> (IsRequest (Function m') \<longrightarrow> CompletionCode m' = CompletionCodeNormal)
       \<and> DecodeFromBytes n data df = (m', df', OK)"
proof -
  note l = decode_ok_length [OF assms]
  let ?s = "if IsRequest (drop_bit 2 (data ! 1)) then 6 else (7::int)"
  have b: "0 \<le> ?s" "?s \<le> int (length data) - 1" using l(1,4) by auto
  note dm = decode_checked [OF l(1-3), of m df]
  note dn = decode_checked [OF l(1-3), of n df]
  from assms have h: "decodeDataHeader
             (m\<lparr>RemoteAddress := data ! 0, Function := drop_bit 2 (data ! 1),
                RemoteLUN := data ! 1 AND 0x3, Checksum1 := data ! 2,
                LocalAddress := data ! 3, Sequence := drop_bit 2 (data ! 4),
                LocalLUN := data ! 4 AND 0x3, Command := data ! 5, Checksum2 := last data,
                CompletionCode := (if IsRequest (drop_bit 2 (data ! 1)) then 0 else data ! 6)\<rparr>)
             data ?s df = (m', df', OK)"
    unfolding dm .
  note f = decodeDataHeader_fields [OF h b]
  have "DecodeFromBytes n data df = (m', df', OK)"
    unfolding dn by (rule decodeDataHeader_indep [OF h b]) simp_all
  moreover have "IsRequest (Function m') \<longrightarrow> CompletionCode m' = CompletionCodeNormal"
    using f(3,4) by (simp add: CompletionCodeNormal_def)
  moreover have "Function m' \<noteq> NetworkFunctionGroupReq \<and> Function m' \<noteq> NetworkFunctionGroupRsp
            \<longrightarrow> Body m' = 0"
    using f(1,3) by simp
  moreover have "Function m' \<noteq> NetworkFunctionOEMReq \<and> Function m' \<noteq> NetworkFunctionOEMRsp
            \<longrightarrow> Enterprise m' = 0"
    using f(2,3) by simp
  ultimately show ?thesis by blast
qed

theorem decode_assigns_conditional_fields_witness:
  "DecodeFromBytes (zeroMessage\<lparr>Body := 0x55, Enterprise := 0x123456, CompletionCode := 0xc1\<rparr>)
     [0x20, 0x18, 0xc8, 0x81, 0x14, 0x38, 0x33] False =
     (\<lparr>Function = NetworkFunctionAppReq, Body = 0, Enterprise = 0, Command = 0x38,
       Contents = [0x20, 0x18, 0xc8, 0x81, 0x14, 0x38], Payload = [],
       RemoteAddress = 0x20, RemoteLUN = 0, Checksum1 = 0xc8, LocalAddress = 0x81, LocalLUN = 0,
       Sequence = 5, CompletionCode = CompletionCodeNormal, Checksum2 = 0x33\<rparr>, False, OK)
   \<and> DecodeFromBytes zeroMessage [0x20, 0x18, 0xc8, 0x81, 0x14, 0x38, 0x33] False =
     (\<lparr>Function = NetworkFunctionAppReq, Body = 0, Enterprise = 0, Command = 0x38,
       Contents = [0x20, 0x18, 0xc8, 0x81, 0x14, 0x38], Payload = [],
       RemoteAddress = 0x20, RemoteLUN = 0, Checksum1 = 0xc8, LocalAddress = 0x81, LocalLUN = 0,
       Sequence = 5, CompletionCode = CompletionCodeNormal, Checksum2 = 0x33\<rparr>, False, OK)"
proof -
  have h: "DecodeFromBytes
       (zeroMessage\<lparr>Body := 0x55, Enterprise := 0x123456, CompletionCode := 0xc1\<rparr>)
       [0x20, 0x18, 0xc8, 0x81, 0x14, 0x38, 0x33] False =
     (\<lparr>Function = NetworkFunctionAppReq, Body = 0, Enterprise = 0, Command = 0x38,
       Contents = [0x20, 0x18, 0xc8, 0x81, 0x14, 0x38], Payload = [],
       RemoteAddress = 0x20, RemoteLUN = 0, Checksum1 = 0xc8, LocalAddress = 0x81, LocalLUN = 0,
       Sequence = 5, CompletionCode = CompletionCodeNormal, Checksum2 = 0x33\<rparr>, False, OK)"
    by (simp add: DecodeFromBytes_eq decodeDataHeader_eq checksum_def IsRequest_def
        zeroMessage_def NetworkFunctionAppReq_def NetworkFunctionGroupReq_def
        NetworkFunctionGroupRsp_def NetworkFunctionOEMReq_def NetworkFunctionOEMRsp_def
        CompletionCodeNormal_def)
  from decode_assigns_conditional_fields [OF h, of zeroMessage] h show ?thesis by simp
qed

subsection \<open>Extra header bytes of the Group and OEM functions\<close>

text \<open>
  Where the data region exists, that is, where \<open>start\<close> is at most the offset of the
  trailing checksum: with \<open>k\<close> the number of extra header bytes of the function (1 for
  the Group request and response, 3 for the OEM request and response, 0 otherwise),
  \<^verbatim>\<open>decodeSpecialNetFns\<close> on the region consumes exactly \<open>k\<close> bytes, and
  \<^verbatim>\<open>decodeDataHeader\<close> puts the payload boundary at \<open>start + k\<close>, reading the body
  code from the first byte of the region and the enterprise number from its first three
  bytes, least significant first. When the region has fewer than \<open>k\<close> bytes both fail
  with the truncated flag set, and consume nothing.
\<close>

lemma special_function_header_bytes:
  assumes "0 \<le> start" and "start \<le> int (length data) - 1"
  shows "(let k = (if Function m = NetworkFunctionGroupReq \<or> Function m = NetworkFunctionGroupRsp
                   then (1::int)
                   else if Function m = NetworkFunctionOEMReq \<or> Function m = NetworkFunctionOEMRsp
                   then 3 else 0)
         in (case decodeSpecialNetFns m (drop (nat start) (butlast data)) df of
               (m1, df1, consumed, out) \<Rightarrow>
                 if int (length data) - 1 - start < k
                 then consumed = 0 \<and> df1
                      \<and> out = Failed (if k = 1 then BodyCodeTooShort else OEMENTooShort)
                 else consumed = k \<and> df1 = df \<and> out = OK)
          \<and> (case decodeDataHeader m data start df of
               (m2, df2, out) \<Rightarrow>
                 if int (length data) - 1 - start < k
                 then df2 \<and> out = Failed (if k = 1 then BodyCodeTooShort else OEMENTooShort)
                 else df2 = df \<and> out = OK
                      \<and> Contents m2 = take (nat (start + k)) data
                      \<and> Payload m2 = drop (nat (start + k)) (butlast data)
                      \<and> (k = 1 \<longrightarrow> Body m2 = data ! nat start)
                      \<and> (k = 3 \<longrightarrow> Enterprise m2 =
                            ucast (data ! nat start)
                              OR push_bit 8 (ucast (data ! (nat start + 1)))
                              OR push_bit 16 (ucast (data ! (nat start + 2))))))"
proof -
  have len: "int (length (drop (nat start) (butlast data))) = int (length data) - 1 - start"
    using assms by simp
  have l1: "length (drop (nat start) (butlast data)) < 1 \<longleftrightarrow> int (length data) - 1 - start < 1"
    using len by linarith
  have l3: "length (drop (nat start) (butlast data)) < 3 \<longleftrightarrow> int (length data) - 1 - start < 3"
    using len by linarith
  have n: "nat (start + 1) = nat start + 1" "nat (start + 3) = nat start + 3"
    using assms by simp_all
  show ?thesis
    using assms(2)
    unfolding decodeDataHeader_eq [OF assms] decodeSpecialNetFns_eq l1 l3 Let_def
    by (simp add: n del: length_drop length_butlast)
qed

lemma special_function_header_bytes_examples:
  "(case decodeDataHeader (zeroMessage\<lparr>Function := NetworkFunctionGroupReq\<rparr>)
           [1, 2, 3, 4, 5, 6, 0xaa, 0xbb, 0xcc] 6 False of
      (m2, df2, out) \<Rightarrow>
        \<not> df2 \<and> out = OK \<and> Contents m2 = [1, 2, 3, 4, 5, 6, 0xaa] \<and> Payload m2 = [0xbb]
        \<and> Body m2 = 0xaa)
   \<and> (case decodeDataHeader (zeroMessage\<lparr>Function := NetworkFunctionOEMReq\<rparr>)
           [1, 2, 3, 4, 5, 6, 0xc4, 0xb3, 0xa2, 0xde, 0xcc] 6 False of
      (m2, df2, out) \<Rightarrow>
        \<not> df2 \<and> out = OK \<and> Contents m2 = [1, 2, 3, 4, 5, 6, 0xc4, 0xb3, 0xa2]
        \<and> Payload m2 = [0xde] \<and> Enterprise m2 = 0xa2b3c4)
   \<and> (case decodeDataHeader (zeroMessage\<lparr>Function := NetworkFunctionOEMRsp\<rparr>)
           [1, 2, 3, 4, 5, 6, 7, 0xaa, 0xbb, 0xcc] 7 False of
      (m2, df2, out) \<Rightarrow> df2 \<and> out = Failed OEMENTooShort)"
proof -
  have a: "(0::int) \<le> 6" "6 \<le> int (length [1, 2, 3, 4, 5, 6, 0xaa, 0xbb, 0xcc :: byte]) - 1"
    "6 \<le> int (length [1, 2, 3, 4, 5, 6, 0xc4, 0xb3, 0xa2, 0xde, 0xcc :: byte]) - 1"
    "(0::int) \<le> 7" "7 \<le> int (length [1, 2, 3, 4, 5, 6, 7, 0xaa, 0xbb, 0xcc :: byte]) - 1"
    by simp_all
  show ?thesis
    using special_function_header_bytes [OF a(1,2),
        of "zeroMessage\<lparr>Function := NetworkFunctionGroupReq\<rparr>" False]
      special_function_header_bytes [OF a(1,3),
        of "zeroMessage\<lparr>Function := NetworkFunctionOEMReq\<rparr>" False]
      special_function_header_bytes [OF a(4,5),
        of "zeroMessage\<lparr>Function := NetworkFunctionOEMRsp\<rparr>" False]
    by (auto simp add: zeroMessage_def NetworkFunctionGroupReq_def
        NetworkFunctionGroupRsp_def NetworkFunctionOEMReq_def NetworkFunctionOEMRsp_def
        split: prod.splits)
qed

text \<open>
  The paths beside the faulty one signal truncation. An OEM request of 7 bytes, and an OEM
  response of 8 bytes (completion code present, enterprise number missing), both with
  valid checksums, fail with the truncated flag set.
\<close>

lemma decode_oem_without_enterprise_truncated:
  "snd (DecodeFromBytes m [0x20, 0xb8, 0x28, 0x81, 0x14, 0x01, 0x6a] df)
     = (True, Failed OEMENTooShort)"
  "snd (DecodeFromBytes m [0x20, 0xbc, 0x24, 0x81, 0x14, 0x01, 0x00, 0x6a] df)
     = (True, Failed OEMENTooShort)"
  by (simp_all add: DecodeFromBytes_eq decodeDataHeader_eq checksum_def IsRequest_def
      NetworkFunctionGroupReq_def NetworkFunctionGroupRsp_def NetworkFunctionOEMReq_def
      NetworkFunctionOEMRsp_def)

text \<open>
  Claim C7. The claim is that a Group or OEM function whose extra header bytes are missing
  fails to decode with a truncation signal. The two inputs below are an OEM response and a
  Group response of 7 bytes, with both checksums right and neither a completion code nor
  any of the extra header bytes. Decoding them sets no truncated flag and returns no
  error: \<^verbatim>\<open>decodeDataHeader\<close> panics on the slice \<^verbatim>\<open>data[7:6]\<close> before
  \<^verbatim>\<open>decodeSpecialNetFns\<close> is called.
\<close>

theorem decode_special_response_7_bytes_panics:
  "DecodeFromBytes m [0x20, 0xbc, 0x24, 0x81, 0x14, 0x01, 0x6a] df
     = (m\<lparr>Function := NetworkFunctionOEMRsp, Command := 0x01, RemoteAddress := 0x20,
          RemoteLUN := 0, Checksum1 := 0x24, LocalAddress := 0x81, LocalLUN := 0, Sequence := 5,
          CompletionCode := 0x6a, Checksum2 := 0x6a\<rparr>, df, Panic)
   \<and> DecodeFromBytes m [0x20, 0xb4, 0x2c, 0x81, 0x14, 0x01, 0x6a] df
     = (m\<lparr>Function := NetworkFunctionGroupRsp, Command := 0x01, RemoteAddress := 0x20,
          RemoteLUN := 0, Checksum1 := 0x2c, LocalAddress := 0x81, LocalLUN := 0, Sequence := 5,
          CompletionCode := 0x6a, Checksum2 := 0x6a\<rparr>, df, Panic)"
  by (simp add: DecodeFromBytes_eq checksum_def IsRequest_def decodeDataHeader_panic
      NetworkFunctionOEMRsp_def NetworkFunctionGroupRsp_def)

subsection \<open>The next layer\<close>

text \<open>
  The keys of the table are pairwise different, so looking a key up in the list finds the
  one entry the Go map holds for it.
\<close>

lemma distinct_operationLayerTypes: "distinct (map fst operationLayerTypes)"
  by (simp add: operationLayerTypes_def OperationGetDeviceIDRsp_def
      OperationGetChassisStatusRsp_def OperationGetSystemGUIDRsp_def
      OperationGetChannelAuthenticationCapabilitiesRsp_def OperationGetSDRRepositoryInfoRsp_def
      OperationGetSDRRsp_def OperationGetSensorReadingRsp_def OperationGetSessionInfoRsp_def
      NetworkFunctionAppRsp_def NetworkFunctionChassisRsp_def NetworkFunctionStorageRsp_def
      NetworkFunctionSensorRsp_def)

text \<open>
  Claim C6. With a completion code other than the normal one the next layer of a message
  is the opaque payload, whatever its operation; with the normal completion code it is
  what \<^verbatim>\<open>Operation.NextLayerType\<close> gives for the operation of the message, which is the
  layer the table maps the operation to, and the opaque payload for an operation that is
  not a key of the table.
\<close>

theorem next_layer_type:
  "(CompletionCode m \<noteq> CompletionCodeNormal \<longrightarrow> Message_NextLayerType m = LayerTypePayload)
   \<and> (CompletionCode m = CompletionCodeNormal \<longrightarrow>
        Message_NextLayerType m = Operation_NextLayerType (Operation.truncate m))
   \<and> (\<forall>(op, layer) \<in> set operationLayerTypes. Operation_NextLayerType op = layer)
   \<and> (op' \<notin> fst ` set operationLayerTypes \<longrightarrow> Operation_NextLayerType op' = LayerTypePayload)"
proof -
  have a: "\<forall>(op, layer) \<in> set operationLayerTypes. Operation_NextLayerType op = layer"
    using distinct_operationLayerTypes
    by (auto simp add: Operation_NextLayerType_def)
  have b: "op' \<notin> fst ` set operationLayerTypes \<longrightarrow> Operation_NextLayerType op' = LayerTypePayload"
    by (simp add: Operation_NextLayerType_def map_of_eq_None_iff [THEN iffD2])
  show ?thesis using a b by (simp add: Message_NextLayerType_def)
qed

theorem next_layer_type_witness:
  "Message_NextLayerType (zeroMessage\<lparr>Function := NetworkFunctionAppRsp, Command := 0x01,
       CompletionCode := 0xc1\<rparr>) = LayerTypePayload
   \<and> Message_NextLayerType (zeroMessage\<lparr>Function := NetworkFunctionAppRsp, Command := 0x01\<rparr>)
       = LayerTypeGetDeviceIDRsp
   \<and> Message_NextLayerType (zeroMessage\<lparr>Function := NetworkFunctionAppRsp, Command := 0x02\<rparr>)
       = LayerTypePayload"
proof -
  have t: "Operation.truncate (zeroMessage\<lparr>Function := NetworkFunctionAppRsp, Command := 0x01\<rparr>)
             = OperationGetDeviceIDRsp"
    by (simp add: Operation.truncate_def zeroMessage_def OperationGetDeviceIDRsp_def)
  have i: "(OperationGetDeviceIDRsp, LayerTypeGetDeviceIDRsp) \<in> set operationLayerTypes"
    by (simp add: operationLayerTypes_def)
  have o: "Operation.truncate (zeroMessage\<lparr>Function := NetworkFunctionAppRsp, Command := 0x02\<rparr>)
             \<notin> fst ` set operationLayerTypes"
    by (simp add: operationLayerTypes_def Operation.truncate_def zeroMessage_def
      OperationGetDeviceIDRsp_def
      OperationGetChassisStatusRsp_def OperationGetSystemGUIDRsp_def
      OperationGetChannelAuthenticationCapabilitiesRsp_def OperationGetSDRRepositoryInfoRsp_def
      OperationGetSDRRsp_def OperationGetSensorReadingRsp_def OperationGetSessionInfoRsp_def
      NetworkFunctionAppRsp_def NetworkFunctionChassisRsp_def NetworkFunctionStorageRsp_def
      NetworkFunctionSensorRsp_def)
  show ?thesis
    using next_layer_type [of "zeroMessage\<lparr>Function := NetworkFunctionAppRsp, Command := 0x01,
        CompletionCode := 0xc1\<rparr>"]
      next_layer_type [of "zeroMessage\<lparr>Function := NetworkFunctionAppRsp, Command := 0x01\<rparr>"]
      next_layer_type [of "zeroMessage\<lparr>Function := NetworkFunctionAppRsp, Command := 0x02\<rparr>"
        "Operation.truncate (zeroMessage\<lparr>Function := NetworkFunctionAppRsp, Command := 0x02\<rparr>)"]
      t i o
    by (auto simp add: CompletionCodeNormal_def zeroMessage_def)
qed

subsection \<open>The cipher of a confidentiality algorithm\<close>

text \<open>
  Claim C8. Given that the AES constructor accepts every 16-byte key (Go's
  \<^verbatim>\<open>aes.NewCipher\<close> does): for the identifier None, \<^verbatim>\<open>algorithmCipher\<close> returns no layer and
  no error; for AES-CBC-128 it returns the cipher that \<^verbatim>\<open>NewAES128CBC\<close> builds from a key of
  16 bytes, which are the first 16 bytes of \<open>K 2\<close>, followed by zeros if \<open>K 2\<close> is
  shorter; for every other identifier it returns the unsupported-algorithm error naming
  the identifier. So it succeeds exactly for None and AES-CBC-128.
\<close>

theorem algorithmCipher_cases:
  assumes "\<And>key. length key = 16 \<Longrightarrow> \<exists>c. NewAES128CBC key = Inr c"
  shows "(a = ConfidentialityAlgorithmNone \<longrightarrow> algorithmCipher NewAES128CBC a K = Inr None)
       \<and> (a = ConfidentialityAlgorithmAESCBC128 \<longrightarrow>
            length (take 16 (K 2) @ replicate (16 - length (K 2)) 0) = 16
            \<and> (\<exists>c. NewAES128CBC (take 16 (K 2) @ replicate (16 - length (K 2)) 0) = Inr c
                   \<and> algorithmCipher NewAES128CBC a K = Inr (Some c)))
       \<and> (a \<noteq> ConfidentialityAlgorithmNone \<and> a \<noteq> ConfidentialityAlgorithmAESCBC128 \<longrightarrow>
            algorithmCipher NewAES128CBC a K = Inl (UnsupportedConfidentialityAlgorithm a))
       \<and> ((\<exists>layer. algorithmCipher NewAES128CBC a K = Inr layer) \<longleftrightarrow>
            a = ConfidentialityAlgorithmNone \<or> a = ConfidentialityAlgorithmAESCBC128)"
proof -
  let ?key = "take 16 (K 2) @ replicate (16 - length (K 2)) (0::byte)"
  have k: "go_copy (replicate 16 0) (K 2) = ?key" by (simp add: go_copy_def)
  have l: "length ?key = 16" by simp
  from assms [OF l] obtain c where c: "NewAES128CBC ?key = Inr c" by blast
  have ne: "ConfidentialityAlgorithmAESCBC128 \<noteq> ConfidentialityAlgorithmNone"
    by (simp add: ConfidentialityAlgorithmAESCBC128_def ConfidentialityAlgorithmNone_def)
  show ?thesis
    using c ne l unfolding algorithmCipher_def k Let_def by auto
qed

theorem algorithmCipher_cases_witness:
  "algorithmCipher (\<lambda>key. Inr key :: unit + byte list) ConfidentialityAlgorithmAESCBC128
       (\<lambda>n. [1, 2, 3, 4, 5, 6, 7, 8, 9, 10, 11, 12, 13, 14, 15, 16, 17, 18, 19, 20])
     = Inr (Some [1, 2, 3, 4, 5, 6, 7, 8, 9, 10, 11, 12, 13, 14, 15, 16])
   \<and> algorithmCipher (\<lambda>key. Inr key :: unit + byte list) ConfidentialityAlgorithmNone
       (\<lambda>n. [1, 2, 3, 4, 5, 6, 7, 8, 9, 10, 11, 12, 13, 14, 15, 16, 17, 18, 19, 20]) = Inr None
   \<and> algorithmCipher (\<lambda>key. Inr key :: unit + byte list) 2 (\<lambda>n. [1, 2, 3, 4, 5, 6, 7, 8, 9, 10, 11, 12, 13, 14, 15, 16, 17, 18, 19, 20])
       = Inl (UnsupportedConfidentialityAlgorithm 2)"
proof -
  have h: "\<And>key :: byte list. length key = 16 \<Longrightarrow> \<exists>c. (Inr key :: unit + byte list) = Inr c"
    by simp
  show ?thesis
    using algorithmCipher_cases [of "\<lambda>key. Inr key :: unit + byte list",
        OF h, of ConfidentialityAlgorithmAESCBC128 "\<lambda>n. [1, 2, 3, 4, 5, 6, 7, 8, 9, 10, 11, 12, 13, 14, 15, 16, 17, 18, 19, 20]"]
      algorithmCipher_cases [of "\<lambda>key. Inr key :: unit + byte list",
        OF h, of ConfidentialityAlgorithmNone "\<lambda>n. [1, 2, 3, 4, 5, 6, 7, 8, 9, 10, 11, 12, 13, 14, 15, 16, 17, 18, 19, 20]"]
      algorithmCipher_cases [of "\<lambda>key. Inr key :: unit + byte list",
        OF h, of 2 "\<lambda>n. [1, 2, 3, 4, 5, 6, 7, 8, 9, 10, 11, 12, 13, 14, 15, 16, 17, 18, 19, 20]"]
    by (simp add: ConfidentialityAlgorithmAESCBC128_def ConfidentialityAlgorithmNone_def)
qed

subsection \<open>What the serialiser writes\<close>

lemma set_at_Cons_pos:
  assumes "0 < i"
  shows "set_at (x # xs) i v = map_option ((#) x) (set_at xs (i - 1) v)"
proof -
  from assms have "nat i = Suc (nat (i - 1))" by simp
  then have "(x # xs)[nat i := v] = x # xs[nat (i - 1) := v]" by simp
  with assms show ?thesis by (auto simp add: set_at_def)
qed

lemma set_at_simps:
  "set_at (x # xs) 0 v = Some (v # xs)"
  "set_at (x # xs) (numeral n) v = map_option ((#) x) (set_at xs (numeral n - 1) v)"
  "set_at (x # xs) 1 v = map_option ((#) x) (set_at xs 0 v)"
  "set_at [] i v = None"
  using set_at_Cons_pos [of "numeral n" x xs v] set_at_Cons_pos [of 1 x xs v]
  by (simp_all add: set_at_def)

lemma length_6_conv: "length xs = 6 \<longleftrightarrow> (\<exists>a b c d e f. xs = [a, b, c, d, e, f])"
  by (auto simp add: eval_nat_numeral length_Suc_conv)

lemma length_from_6:
  assumes "6 \<le> length xs"
  obtains a b c d e f ys where "xs = [a, b, c, d, e, f] @ ys"
proof -
  have "length (take 6 xs) = 6" using assms by simp
  then obtain a b c d e f where "take 6 xs = [a, b, c, d, e, f]"
    unfolding length_6_conv by blast
  then have "xs = [a, b, c, d, e, f] @ drop 6 xs"
    by (metis append_take_drop_id)
  then show thesis by (rule that)
qed

lemma length_conv_small:
  "length ys = Suc 0 \<longleftrightarrow> (\<exists>a. ys = [a])"
  "length ys = 2 \<longleftrightarrow> (\<exists>a b. ys = [a, b])"
  "length ys = 3 \<longleftrightarrow> (\<exists>a b c. ys = [a, b, c])"
  "length ys = 4 \<longleftrightarrow> (\<exists>a b c d. ys = [a, b, c, d])"
  by (auto simp add: eval_nat_numeral length_Suc_conv)

lemma serializeHeader_eq:
  assumes "int (length header) = serializeLength m"
  shows "serializeHeader m compute header b =
     Some (m\<lparr>Checksum1 := (if compute
                              then checksum [RemoteAddress m, push_bit 2 (Function m) OR RemoteLUN m]
                              else Checksum1 m),
              Checksum2 := (if compute then checksum (drop 3 (headerBytes m compute @ b))
                            else Checksum2 m)\<rparr>,
           headerBytes m compute)"
proof -
  have "6 \<le> length header" using assms by (simp add: serializeLength_def Let_def split: if_splits)
  then obtain a0 a1 a2 a3 a4 a5 ys where h: "header = [a0, a1, a2, a3, a4, a5] @ ys"
    by (rule length_from_6)
  have ly: "int (length ys) = serializeLength m - 6" using assms h by simp
  consider
    (g) "Function m = NetworkFunctionGroupReq \<or> Function m = NetworkFunctionGroupRsp"
  | (o) "Function m \<noteq> NetworkFunctionGroupReq" "Function m \<noteq> NetworkFunctionGroupRsp"
        "Function m = NetworkFunctionOEMReq \<or> Function m = NetworkFunctionOEMRsp"
  | (n) "Function m \<noteq> NetworkFunctionGroupReq" "Function m \<noteq> NetworkFunctionGroupRsp"
        "Function m \<noteq> NetworkFunctionOEMReq" "Function m \<noteq> NetworkFunctionOEMRsp"
    by blast
  then show ?thesis
  proof cases
    case g
    show ?thesis
    proof (cases "IsRequest (Function m)")
      case True
      with g ly have "length ys = Suc 0" by (simp add: serializeLength_def)
      then obtain b0 where "ys = [b0]" unfolding length_conv_small by blast
      with g True h show ?thesis
        by (cases compute)
          (simp_all add: serializeHeader_def headerBytes_def set_at_simps slice_def)
    next
      case False
      with g ly have "length ys = 2" by (simp add: serializeLength_def)
      then obtain b0 b1 where "ys = [b0, b1]" unfolding length_conv_small by blast
      with g False h show ?thesis
        by (cases compute)
          (simp_all add: serializeHeader_def headerBytes_def set_at_simps slice_def)
    qed
  next
    case o
    show ?thesis
    proof (cases "IsRequest (Function m)")
      case True
      with o ly have "length ys = 3" by (simp add: serializeLength_def)
      then obtain b0 b1 b2 where "ys = [b0, b1, b2]" unfolding length_conv_small by blast
      with o True h show ?thesis
        by (cases compute)
          (simp_all add: serializeHeader_def headerBytes_def set_at_simps slice_def)
    next
      case False
      with o ly have "length ys = 4" by (simp add: serializeLength_def)
      then obtain b0 b1 b2 b3 where "ys = [b0, b1, b2, b3]" unfolding length_conv_small by blast
      with o False h show ?thesis
        by (cases compute)
          (simp_all add: serializeHeader_def headerBytes_def set_at_simps slice_def)
    qed
  next
    case n
    show ?thesis
    proof (cases "IsRequest (Function m)")
      case True
      with n ly have "ys = []" by (simp add: serializeLength_def)
      with n True h show ?thesis
        by (cases compute)
          (simp_all add: serializeHeader_def headerBytes_def set_at_simps slice_def)
    next
      case False
      with n ly have "length ys = Suc 0" by (simp add: serializeLength_def)
      then obtain b0 where "ys = [b0]" unfolding length_conv_small by blast
      with n False h show ?thesis
        by (cases compute)
          (simp_all add: serializeHeader_def headerBytes_def set_at_simps slice_def)
    qed
  qed
qed

lemma unpack_hi:
  assumes "f < 64" and "l < 4"
  shows "drop_bit 2 (push_bit 2 f OR l) = (f::byte)"
proof -
  have f: "take_bit 6 f = f" using less_mask_eq [of f 6] assms(1) by (simp add: take_bit_eq_mask)
  have l: "take_bit 2 l = l" using less_mask_eq [of l 2] assms(2) by (simp add: take_bit_eq_mask)
  have "drop_bit 2 (push_bit 2 (take_bit 6 f) OR take_bit 2 l) = take_bit 6 f"
    by (rule bit_word_eqI) (auto simp add: bit_simps)
  then show ?thesis by (simp only: f l)
qed

lemma unpack_lo:
  assumes "l < 4"
  shows "(push_bit 2 f OR l) AND 3 = (l::byte)"
proof -
  have l: "take_bit 2 l = l" using less_mask_eq [of l 2] assms by (simp add: take_bit_eq_mask)
  have m: "(3::byte) = mask 2" by (simp add: mask_eq_exp_minus_1)
  have "(push_bit 2 f OR take_bit 2 l) AND mask 2 = take_bit 2 l"
    by (rule bit_word_eqI) (auto simp add: bit_simps)
  then show ?thesis by (simp only: l m)
qed

lemma enterprise_roundtrip:
  assumes "e < 2 ^ 24"
  shows "ucast (ucast e :: byte) OR push_bit 8 (ucast (ucast (drop_bit 8 e) :: byte))
           OR push_bit 16 (ucast (ucast (drop_bit 16 e) :: byte)) = (e :: 32 word)"
proof -
  have e: "take_bit 24 e = e" using less_mask_eq [of e 24] assms by (simp add: take_bit_eq_mask)
  have "ucast (ucast (take_bit 24 e) :: byte)
           OR push_bit 8 (ucast (ucast (drop_bit 8 (take_bit 24 e)) :: byte))
           OR push_bit 16 (ucast (ucast (drop_bit 16 (take_bit 24 e)) :: byte)) = take_bit 24 e"
    apply (rule bit_word_eqI)
    apply (auto simp add: bit_simps)
    subgoal for n by (cases "16 \<le> n") simp_all
    done
  then show ?thesis by (simp only: e)
qed

lemma serializeLength_bounds: "6 \<le> serializeLength m" "serializeLength m \<le> 10"
  by (simp_all add: serializeLength_def Let_def)

lemma length_headerBytes: "int (length (headerBytes m c)) = serializeLength m"
  by (simp add: headerBytes_def serializeLength_def)

lemma SerializeTo_eq:
  "SerializeTo m b opts junk =
     (m\<lparr>Checksum1 := (if ComputeChecksums opts
                        then checksum [RemoteAddress m, push_bit 2 (Function m) OR RemoteLUN m]
                        else Checksum1 m),
        Checksum2 := (if ComputeChecksums opts
                      then checksum (drop 3 (headerBytes m (ComputeChecksums opts) @ b))
                      else Checksum2 m)\<rparr>,
      headerBytes m (ComputeChecksums opts) @ b
        @ [if ComputeChecksums opts
           then checksum (drop 3 (headerBytes m (ComputeChecksums opts) @ b))
           else Checksum2 m],
      Serialized)"
proof -
  have n: "\<not> serializeLength m < 0" using serializeLength_bounds(1) [of m] by simp
  have l: "int (length (map junk [0..<nat (serializeLength m)])) = serializeLength m"
    using serializeLength_bounds(1) [of m] by simp
  show ?thesis
    unfolding SerializeTo_def PrependBytes_def
    by (simp add: n serializeHeader_eq [OF l])
qed

lemma headerBytes_split:
  obtains t where
    "headerBytes m c =
       [RemoteAddress m, push_bit 2 (Function m) OR RemoteLUN m,
        (if c then checksum [RemoteAddress m, push_bit 2 (Function m) OR RemoteLUN m]
         else Checksum1 m),
        LocalAddress m, push_bit 2 (Sequence m) OR LocalLUN m, Command m] @ t"
    and "t = (if IsRequest (Function m) then [] else [CompletionCode m])
     @ (if Function m = NetworkFunctionGroupReq \<or> Function m = NetworkFunctionGroupRsp
        then [Body m]
        else if Function m = NetworkFunctionOEMReq \<or> Function m = NetworkFunctionOEMRsp
        then [ucast (Enterprise m), ucast (drop_bit 8 (Enterprise m)),
              ucast (drop_bit 16 (Enterprise m))]
        else [])"
  by (simp add: headerBytes_def)

text \<open>
  Claim C9. Serialising never fails. Byte 2 of the bytes written is the message's
  \<open>Checksum1\<close> and the last byte is its \<open>Checksum2\<close>, as the message stands after
  the call. With \<^verbatim>\<open>ComputeChecksums\<close> set, the call has overwritten these two fields, and
  no other, with the checksums of the bytes just written: of bytes 0 and 1, and of the
  bytes from offset 3 up to the trailer. Without it the message is unchanged, so the two
  bytes on the wire are the caller's values, whether or not they are checksums of
  anything.
\<close>

theorem serialize_checksums:
  "(case SerializeTo m b opts junk of
      (m', wire, out) \<Rightarrow>
        out = Serialized
        \<and> wire ! 2 = Checksum1 m' \<and> last wire = Checksum2 m'
        \<and> (if ComputeChecksums opts
            then m' = m\<lparr>Checksum1 := checksum (take 2 wire),
                        Checksum2 := checksum (drop 3 (butlast wire))\<rparr>
            else m' = m))"
proof -
  obtain t where h: "headerBytes m (ComputeChecksums opts) =
       [RemoteAddress m, push_bit 2 (Function m) OR RemoteLUN m,
        (if ComputeChecksums opts
         then checksum [RemoteAddress m, push_bit 2 (Function m) OR RemoteLUN m]
         else Checksum1 m),
        LocalAddress m, push_bit 2 (Sequence m) OR LocalLUN m, Command m] @ t"
    by (rule headerBytes_split)
  show ?thesis
    unfolding SerializeTo_eq h
    by (simp add: butlast_append)
qed

theorem serialize_checksums_witness:
  "fst (SerializeTo (zeroMessage\<lparr>Function := NetworkFunctionAppReq, Checksum1 := 0xaa,
          Checksum2 := 0xbb\<rparr>) [] \<lparr>FixLengths = True, ComputeChecksums = False\<rparr> (\<lambda>i. 0xff))
     = zeroMessage\<lparr>Function := NetworkFunctionAppReq, Checksum1 := 0xaa, Checksum2 := 0xbb\<rparr>
   \<and> fst (snd (SerializeTo (zeroMessage\<lparr>Function := NetworkFunctionAppReq, Checksum1 := 0xaa,
          Checksum2 := 0xbb\<rparr>) [] \<lparr>FixLengths = True, ComputeChecksums = False\<rparr> (\<lambda>i. 0xff))) ! 2
     = 0xaa
   \<and> last (fst (snd (SerializeTo (zeroMessage\<lparr>Function := NetworkFunctionAppReq,
          Checksum1 := 0xaa, Checksum2 := 0xbb\<rparr>) []
          \<lparr>FixLengths = True, ComputeChecksums = False\<rparr> (\<lambda>i. 0xff))))
     = 0xbb
   \<and> SerializeTo (zeroMessage\<lparr>Function := NetworkFunctionAppReq, Checksum1 := 0xaa,
          Checksum2 := 0xbb\<rparr>) [] \<lparr>FixLengths = True, ComputeChecksums = True\<rparr> (\<lambda>i. 0xff)
     = (zeroMessage\<lparr>Function := NetworkFunctionAppReq, Checksum1 := 0xe8, Checksum2 := 0\<rparr>,
        [0, 0x18, 0xe8, 0, 0, 0, 0], Serialized)"
proof -
  have w: "fst (snd (SerializeTo (zeroMessage\<lparr>Function := NetworkFunctionAppReq, Checksum1 := 0xaa,
          Checksum2 := 0xbb\<rparr>) [] \<lparr>FixLengths = True, ComputeChecksums = True\<rparr> (\<lambda>i. 0xff)))
      = [0, 0x18, 0xe8, 0, 0, 0, 0]"
    by (simp add: SerializeTo_eq headerBytes_def checksum_def zeroMessage_def IsRequest_def
        NetworkFunctionAppReq_def NetworkFunctionGroupReq_def NetworkFunctionGroupRsp_def
        NetworkFunctionOEMReq_def NetworkFunctionOEMRsp_def)
  show ?thesis
    using serialize_checksums [where m = "zeroMessage\<lparr>Function := NetworkFunctionAppReq,
        Checksum1 := 0xaa, Checksum2 := 0xbb\<rparr>" and b = "[]"
        and opts = "\<lparr>FixLengths = True, ComputeChecksums = False\<rparr>" and junk = "\<lambda>i. 0xff"]
      serialize_checksums [where m = "zeroMessage\<lparr>Function := NetworkFunctionAppReq,
        Checksum1 := 0xaa, Checksum2 := 0xbb\<rparr>" and b = "[]"
        and opts = "\<lparr>FixLengths = True, ComputeChecksums = True\<rparr>" and junk = "\<lambda>i. 0xff"] w
    by (auto simp add: zeroMessage_def checksum_def split: prod.splits)
qed

subsection \<open>Decoding what the serialiser wrote\<close>

lemma decode_serialized:
  assumes "consistentFields m"
  shows "DecodeFromBytes m0
           (headerBytes m True @ b @ [checksum (drop 3 (headerBytes m True @ b))]) df =
     (\<lparr>Function = Function m,
       Body = (if Function m = NetworkFunctionGroupReq \<or> Function m = NetworkFunctionGroupRsp
               then Body m else 0),
       Enterprise = (if Function m = NetworkFunctionOEMReq \<or> Function m = NetworkFunctionOEMRsp
                     then Enterprise m else 0),
       Command = Command m,
       Contents = headerBytes m True,
       Payload = b,
       RemoteAddress = RemoteAddress m, RemoteLUN = RemoteLUN m,
       Checksum1 = checksum [RemoteAddress m, push_bit 2 (Function m) OR RemoteLUN m],
       LocalAddress = LocalAddress m, LocalLUN = LocalLUN m, Sequence = Sequence m,
       CompletionCode = (if IsRequest (Function m) then 0 else CompletionCode m),
       Checksum2 = checksum (drop 3 (headerBytes m True @ b))\<rparr>, df, OK)"
proof -
  define b1 where "b1 = push_bit 2 (Function m) OR RemoteLUN m"
  define b4 where "b4 = push_bit 2 (Sequence m) OR LocalLUN m"
  define c1 where "c1 = checksum [RemoteAddress m, b1]"
  from assms have c: "Function m < 64" "RemoteLUN m < 4" "LocalLUN m < 4" "Sequence m < 64"
    by (simp_all add: consistentFields_def)
  have fn: "drop_bit 2 b1 = Function m" "b1 AND 3 = RemoteLUN m"
    "drop_bit 2 b4 = Sequence m" "b4 AND 3 = LocalLUN m"
    unfolding b1_def b4_def
    by (rule unpack_hi [OF c(1,2)] unpack_lo [OF c(2)] unpack_hi [OF c(4,3)] unpack_lo [OF c(3)])+
  obtain t where h: "headerBytes m True =
       [RemoteAddress m, b1, c1, LocalAddress m, b4, Command m] @ t"
    and t: "t = (if IsRequest (Function m) then [] else [CompletionCode m])
     @ (if Function m = NetworkFunctionGroupReq \<or> Function m = NetworkFunctionGroupRsp
        then [Body m]
        else if Function m = NetworkFunctionOEMReq \<or> Function m = NetworkFunctionOEMRsp
        then [ucast (Enterprise m), ucast (drop_bit 8 (Enterprise m)),
              ucast (drop_bit 16 (Enterprise m))]
        else [])"
    unfolding b1_def b4_def c1_def by (rule headerBytes_split [of m True]) simp
  let ?b1 = b1
  let ?b4 = b4
  let ?c1 = c1
  let ?c2 = "checksum (LocalAddress m # ?b4 # Command m # t @ b)"
  let ?wire = "RemoteAddress m # ?b1 # ?c1 # LocalAddress m # ?b4 # Command m # t @ b @ [?c2]"
  have w: "headerBytes m True @ b @ [checksum (drop 3 (headerBytes m True @ b))] = ?wire"
    by (simp add: h)
  have f1: "7 \<le> length ?wire" by simp
  have f2: "?wire ! 2 = checksum (take 2 ?wire)" by (simp add: c1_def)
  have tk: "take (length ?wire - 4) (drop 3 ?wire) = LocalAddress m # ?b4 # Command m # t @ b"
    by simp
  have "last ?wire = ?c2" by simp
  then have f3: "last ?wire = checksum (take (length ?wire - 4) (drop 3 ?wire))"
    unfolding tk .
  note d = decode_checked [OF f1 f2 f3, of m0 df]
  have e: "Function m = NetworkFunctionOEMReq \<or> Function m = NetworkFunctionOEMRsp
             \<Longrightarrow> ucast (ucast (Enterprise m) :: byte)
                   OR push_bit 8 (ucast (ucast (drop_bit 8 (Enterprise m)) :: byte))
                   OR push_bit 16 (ucast (ucast (drop_bit 16 (Enterprise m)) :: byte))
                 = Enterprise m"
    using assms by (simp add: consistentFields_def enterprise_roundtrip)
  note defs = NetworkFunctionGroupReq_def NetworkFunctionGroupRsp_def
    NetworkFunctionOEMReq_def NetworkFunctionOEMRsp_def IsRequest_def
  consider
    (greq) "Function m = NetworkFunctionGroupReq"
  | (grsp) "Function m = NetworkFunctionGroupRsp"
  | (oreq) "Function m = NetworkFunctionOEMReq"
  | (orsp) "Function m = NetworkFunctionOEMRsp"
  | (n) "Function m \<noteq> NetworkFunctionGroupReq" "Function m \<noteq> NetworkFunctionGroupRsp"
        "Function m \<noteq> NetworkFunctionOEMReq" "Function m \<noteq> NetworkFunctionOEMRsp"
    by blast
  then have "DecodeFromBytes m0 ?wire df =
     (\<lparr>Function = Function m,
       Body = (if Function m = NetworkFunctionGroupReq \<or> Function m = NetworkFunctionGroupRsp
               then Body m else 0),
       Enterprise = (if Function m = NetworkFunctionOEMReq \<or> Function m = NetworkFunctionOEMRsp
                     then Enterprise m else 0),
       Command = Command m,
       Contents = RemoteAddress m # ?b1 # ?c1 # LocalAddress m # ?b4 # Command m # t,
       Payload = b,
       RemoteAddress = RemoteAddress m, RemoteLUN = RemoteLUN m,
       Checksum1 = ?c1,
       LocalAddress = LocalAddress m, LocalLUN = LocalLUN m, Sequence = Sequence m,
       CompletionCode = (if IsRequest (Function m) then 0 else CompletionCode m),
       Checksum2 = ?c2\<rparr>, df, OK)"
  proof cases
    case greq
    with t have t': "t = [Body m]" by (simp add: defs)
    show ?thesis unfolding d
      by (cases m0) (simp add: fn greq t' decodeDataHeader_eq butlast_append defs)
  next
    case grsp
    with t have t': "t = [CompletionCode m, Body m]" by (simp add: defs)
    show ?thesis unfolding d
      by (cases m0) (simp add: fn grsp t' decodeDataHeader_eq butlast_append defs)
  next
    case oreq
    note e' = e [OF disjI1, OF oreq]
    from oreq t have t': "t = [ucast (Enterprise m), ucast (drop_bit 8 (Enterprise m)),
              ucast (drop_bit 16 (Enterprise m))]" by (simp add: defs)
    show ?thesis unfolding d
      by (cases m0) (simp add: fn oreq t' e' decodeDataHeader_eq butlast_append defs)
  next
    case orsp
    note e' = e [OF disjI2, OF orsp]
    from orsp t have t': "t = [CompletionCode m, ucast (Enterprise m),
              ucast (drop_bit 8 (Enterprise m)), ucast (drop_bit 16 (Enterprise m))]"
      by (simp add: defs)
    show ?thesis unfolding d
      by (cases m0) (simp add: fn orsp t' e' decodeDataHeader_eq butlast_append defs)
  next
    case n
    show ?thesis
    proof (cases "IsRequest (Function m)")
      case True
      with n t have t': "t = []" by simp
      show ?thesis unfolding d
        by (cases m0) (simp add: fn n True t' decodeDataHeader_eq butlast_append)
    next
      case False
      with n t have t': "t = [CompletionCode m]" by simp
      show ?thesis unfolding d
        by (cases m0) (simp add: fn n False t' decodeDataHeader_eq butlast_append)
    qed
  qed
  then show ?thesis unfolding w by (simp add: h c1_def b1_def)
qed

text \<open>
  The fields do have to fit. A function code of 64 loses its top bit in
  \<^verbatim>\<open>uint8(m.Function)<<2\<close>: the bytes written decode, without error, as function 0.
\<close>

lemma function_64_decodes_as_0:
  "fst (snd (SerializeTo (zeroMessage\<lparr>Function := 64\<rparr>) []
       \<lparr>FixLengths = True, ComputeChecksums = True\<rparr> junk)) = [0, 0, 0, 0, 0, 0, 0]"
  "DecodeFromBytes zeroMessage [0, 0, 0, 0, 0, 0, 0] False =
     (zeroMessage\<lparr>Contents := [0, 0, 0, 0, 0, 0]\<rparr>, False, OK)"
  by (simp_all add: SerializeTo_eq headerBytes_def DecodeFromBytes_eq decodeDataHeader_eq
      checksum_def zeroMessage_def IsRequest_def NetworkFunctionGroupReq_def
      NetworkFunctionGroupRsp_def NetworkFunctionOEMReq_def NetworkFunctionOEMRsp_def)

text \<open>
  Claim C1. Serialise a message with consistent fields in front of any payload, with
  \<^verbatim>\<open>ComputeChecksums\<close> set, and decode the bytes into any message \<open>m0\<close>. Serialising
  succeeds, the bytes carry two valid checksums, and decoding succeeds without setting the
  truncated flag. The decoded message has the addresses, LUNs, function, command and
  sequence number of the original, its completion code if the function is a response (the
  normal one if it is a request), its body code if the function is a Group function and
  its enterprise number if it is an OEM function (zero otherwise), the payload, and the two
  checksums the serialiser computed and stored in the original.
\<close>

theorem serialize_decode_roundtrip:
  assumes "consistentFields m" and "ComputeChecksums opts"
  shows "(case SerializeTo m payload opts junk of
            (m1, wire, out) \<Rightarrow>
              out = Serialized
              \<and> wire ! 2 = checksum (take 2 wire)
              \<and> last wire = checksum (drop 3 (butlast wire))
              \<and> (case DecodeFromBytes m0 wire df of
                    (m2, df2, out2) \<Rightarrow>
                      out2 = OK \<and> df2 = df
                      \<and> RemoteAddress m2 = RemoteAddress m \<and> RemoteLUN m2 = RemoteLUN m
                      \<and> Function m2 = Function m \<and> Command m2 = Command m
                      \<and> LocalAddress m2 = LocalAddress m \<and> LocalLUN m2 = LocalLUN m
                      \<and> Sequence m2 = Sequence m
                      \<and> CompletionCode m2 =
                          (if IsRequest (Function m) then CompletionCodeNormal
                           else CompletionCode m)
                      \<and> Body m2 =
                          (if Function m = NetworkFunctionGroupReq
                              \<or> Function m = NetworkFunctionGroupRsp
                           then Body m else 0)
                      \<and> Enterprise m2 =
                          (if Function m = NetworkFunctionOEMReq
                              \<or> Function m = NetworkFunctionOEMRsp
                           then Enterprise m else 0)
                      \<and> Payload m2 = payload
                      \<and> Contents m2 @ Payload m2 @ [Checksum2 m2] = wire
                      \<and> Checksum1 m2 = Checksum1 m1 \<and> Checksum2 m2 = Checksum2 m1
                      \<and> Checksum1 m2 = wire ! 2 \<and> Checksum2 m2 = last wire))"
proof -
  define c1 where "c1 = checksum [RemoteAddress m, push_bit 2 (Function m) OR RemoteLUN m]"
  define c2 where "c2 = checksum (drop 3 (headerBytes m True @ payload))"
  define wire where "wire = headerBytes m True @ payload @ [c2]"
  obtain t where h: "headerBytes m True =
       [RemoteAddress m, push_bit 2 (Function m) OR RemoteLUN m,
        (if True then checksum [RemoteAddress m, push_bit 2 (Function m) OR RemoteLUN m]
         else Checksum1 m),
        LocalAddress m, push_bit 2 (Sequence m) OR LocalLUN m, Command m] @ t"
    by (rule headerBytes_split)
  have w: "wire ! 2 = c1" "checksum (take 2 wire) = c1" "last wire = c2"
    "butlast wire = headerBytes m True @ payload"
    unfolding wire_def c1_def h by (simp_all add: butlast_append)
  have ser: "SerializeTo m payload opts junk =
               (m\<lparr>Checksum1 := c1, Checksum2 := c2\<rparr>, wire, Serialized)"
    unfolding SerializeTo_eq wire_def c1_def c2_def using assms(2) by simp
  have dec: "DecodeFromBytes m0 wire df =
     (\<lparr>Function = Function m,
       Body = (if Function m = NetworkFunctionGroupReq \<or> Function m = NetworkFunctionGroupRsp
               then Body m else 0),
       Enterprise = (if Function m = NetworkFunctionOEMReq \<or> Function m = NetworkFunctionOEMRsp
                     then Enterprise m else 0),
       Command = Command m,
       Contents = headerBytes m True,
       Payload = payload,
       RemoteAddress = RemoteAddress m, RemoteLUN = RemoteLUN m,
       Checksum1 = c1,
       LocalAddress = LocalAddress m, LocalLUN = LocalLUN m, Sequence = Sequence m,
       CompletionCode = (if IsRequest (Function m) then 0 else CompletionCode m),
       Checksum2 = c2\<rparr>, df, OK)"
    unfolding wire_def c1_def c2_def by (rule decode_serialized [OF assms(1)])
  have b: "checksum (drop 3 (butlast wire)) = c2" unfolding w(4) c2_def ..
  have c: "headerBytes m True @ payload @ [c2] = wire" unfolding wire_def ..
  show ?thesis
    by (simp add: ser dec w(1-3) b c CompletionCodeNormal_def)
qed


theorem serialize_decode_roundtrip_witness:
  "consistentFields (zeroMessage\<lparr>Function := NetworkFunctionAppReq, Command := 0x38,
       RemoteAddress := 0x20, LocalAddress := 0x81, Sequence := 5\<rparr>)
   \<and> (case DecodeFromBytes zeroMessage [0x20, 0x18, 0xc8, 0x81, 0x14, 0x38, 0x33] False of
        (m2, df2, out2) \<Rightarrow>
          out2 = OK \<and> \<not> df2 \<and> RemoteAddress m2 = 0x20 \<and> RemoteLUN m2 = 0
          \<and> Function m2 = NetworkFunctionAppReq \<and> Command m2 = 0x38
          \<and> LocalAddress m2 = 0x81 \<and> LocalLUN m2 = 0 \<and> Sequence m2 = 5
          \<and> CompletionCode m2 = CompletionCodeNormal \<and> Payload m2 = []
          \<and> Checksum1 m2 = 0xc8 \<and> Checksum2 m2 = 0x33)
   \<and> consistentFields (zeroMessage\<lparr>Function := NetworkFunctionOEMRsp, Enterprise := 0xa2b3c4,
       Command := 0x01, RemoteAddress := 0x81, RemoteLUN := 1, LocalAddress := 0x20,
       LocalLUN := 2, Sequence := 63, CompletionCode := 0xc1\<rparr>)
   \<and> (case DecodeFromBytes zeroMessage
          [0x81, 0xbd, 0xc2, 0x20, 0xfe, 0x01, 0xc1, 0xc4, 0xb3, 0xa2, 0xde, 0xad, 0x7c] False of
        (m2, df2, out2) \<Rightarrow>
          out2 = OK \<and> \<not> df2 \<and> RemoteAddress m2 = 0x81 \<and> RemoteLUN m2 = 1
          \<and> Function m2 = NetworkFunctionOEMRsp \<and> Command m2 = 0x01
          \<and> LocalAddress m2 = 0x20 \<and> LocalLUN m2 = 2 \<and> Sequence m2 = 63
          \<and> CompletionCode m2 = 0xc1 \<and> Enterprise m2 = 0xa2b3c4 \<and> Payload m2 = [0xde, 0xad]
          \<and> Checksum1 m2 = 0xc2 \<and> Checksum2 m2 = 0x7c)"
proof -
  note defs = NetworkFunctionAppReq_def NetworkFunctionGroupReq_def NetworkFunctionGroupRsp_def
    NetworkFunctionOEMReq_def NetworkFunctionOEMRsp_def IsRequest_def zeroMessage_def
  have c: "consistentFields (zeroMessage\<lparr>Function := NetworkFunctionAppReq, Command := 0x38,
       RemoteAddress := 0x20, LocalAddress := 0x81, Sequence := 5\<rparr>)"
    "consistentFields (zeroMessage\<lparr>Function := NetworkFunctionOEMRsp, Enterprise := 0xa2b3c4,
       Command := 0x01, RemoteAddress := 0x81, RemoteLUN := 1, LocalAddress := 0x20,
       LocalLUN := 2, Sequence := 63, CompletionCode := 0xc1\<rparr>)"
    by (simp_all add: consistentFields_def defs)
  have o: "ComputeChecksums \<lparr>FixLengths = True, ComputeChecksums = True\<rparr>" by simp
  have w: "fst (snd (SerializeTo (zeroMessage\<lparr>Function := NetworkFunctionAppReq, Command := 0x38,
       RemoteAddress := 0x20, LocalAddress := 0x81, Sequence := 5\<rparr>) []
       \<lparr>FixLengths = True, ComputeChecksums = True\<rparr> (\<lambda>i. 0xff)))
     = [0x20, 0x18, 0xc8, 0x81, 0x14, 0x38, 0x33]"
    "fst (snd (SerializeTo (zeroMessage\<lparr>Function := NetworkFunctionOEMRsp,
       Enterprise := 0xa2b3c4,
       Command := 0x01, RemoteAddress := 0x81, RemoteLUN := 1, LocalAddress := 0x20,
       LocalLUN := 2, Sequence := 63, CompletionCode := 0xc1\<rparr>) [0xde, 0xad]
       \<lparr>FixLengths = True, ComputeChecksums = True\<rparr> (\<lambda>i. 0xff)))
     = [0x81, 0xbd, 0xc2, 0x20, 0xfe, 0x01, 0xc1, 0xc4, 0xb3, 0xa2, 0xde, 0xad, 0x7c]"
    by (simp_all add: SerializeTo_eq headerBytes_def checksum_def defs)
  show ?thesis
    using serialize_decode_roundtrip [OF c(1) o, where payload = "[]" and junk = "\<lambda>i. 0xff"
        and ?m0.0 = zeroMessage and df = False]
      serialize_decode_roundtrip [OF c(2) o, where payload = "[0xde, 0xad]"
        and junk = "\<lambda>i. 0xff" and ?m0.0 = zeroMessage and df = False]
      c w
    by (auto simp add: defs CompletionCodeNormal_def split: prod.splits)
qed

end
